theory Spec2Isabelle
  imports Main "HOL-Library.AList" "HOL-Library.Multiset"
begin

section \<open>The relational store engine of \<open>database.service.ts\<close>\<close>

text \<open>
  The engine keeps a mapping from schema names to mappings from table names to tables, in
  memory, and writes the whole mapping back to the browser's key-value store after each
  mutation. The embedding below follows \<open>src/src/services/database.service.ts\<close> function
  by function. What the JavaScript runtime supplies (identifiers, clock readings, the
  conversion of a string to a number, the sorting of an array) is a parameter of the model,
  the record \<open>runtime\<close>.
  The wall-clock measurement \<open>executionTime\<close> of a result is left out of the result
  record; the artificial delay of \<open>executeSQL\<close> is left out as well.
\<close>

subsection \<open>JavaScript values\<close>

text \<open>
  A number is a double: \<open>Finite n\<close> is the double whose value is the integer \<open>n\<close>, and
  there are the two infinities and NaN. Doubles with a fraction are outside the model.
  A value held by a row is a primitive or a reference to an object or array; the content
  of a referenced object is never read by the engine, only its identity (\<open>===\<close>) and its
  conversion to a primitive. An object is its list of entries, in insertion order.
\<close>

datatype number = Finite int | NaN | PosInf | NegInf

datatype jsval = JUndefined | JNull | JBool bool | JNum number | JStr string | JRef nat

type_synonym obj = "(string \<times> jsval) list"

text \<open>
  What the runtime supplies: the identifiers of \<open>crypto.randomUUID\<close> and the readings of
  \<open>new Date().toISOString()\<close> in the order they are drawn, the conversion of a string to
  a number, the string form of a referenced object, and \<open>Array.prototype.sort\<close> on an
  array of rows.
\<close>

record runtime =
  randomUUID :: "nat \<Rightarrow> string"
  toISOString :: "nat \<Rightarrow> string"
  stringToNumber :: "string \<Rightarrow> number"
  refToString :: "nat \<Rightarrow> string"
  arraySort :: "(obj \<Rightarrow> obj \<Rightarrow> int) \<Rightarrow> obj list \<Rightarrow> obj list"

text \<open>Truthiness, as tested by \<open>if (v)\<close> and \<open>v || w\<close>.\<close>

fun truthy_num :: "number \<Rightarrow> bool" where
  "truthy_num (Finite n) = (n \<noteq> 0)"
| "truthy_num NaN = False"
| "truthy_num PosInf = True"
| "truthy_num NegInf = True"

fun truthy :: "jsval \<Rightarrow> bool" where
  "truthy JUndefined = False"
| "truthy JNull = False"
| "truthy (JBool b) = b"
| "truthy (JNum n) = truthy_num n"
| "truthy (JStr s) = (s \<noteq> [])"
| "truthy (JRef r) = True"

text \<open>Strict equality \<open>===\<close>: NaN equals nothing, references are compared by identity.\<close>

fun strict_eq :: "jsval \<Rightarrow> jsval \<Rightarrow> bool" where
  "strict_eq (JNum NaN) b = False"
| "strict_eq a (JNum NaN) = False"
| "strict_eq a b = (a = b)"

text \<open>
  The sum of two integer-valued doubles is their exact sum rounded to the nearest double,
  ties to the even mantissa: a magnitude of at most 53 bits is exact, a longer one keeps
  its leading 53 bits, and a result of \<open>2^1024\<close> or more is an infinity.
\<close>

fun bit_length :: "nat \<Rightarrow> nat" where
  "bit_length n = (if n = 0 then 0 else Suc (bit_length (n div 2)))"

declare bit_length.simps [simp del]

definition round_double :: "int \<Rightarrow> number" where
  "round_double n =
     (let m = nat \<bar>n\<bar>; e = bit_length m
      in if e \<le> 53 then Finite n
         else (let ulp = 2 ^ (e - 53); q = m div ulp; r = m mod ulp; half = ulp div 2;
                   q' = (if half < r \<or> (r = half \<and> odd q) then q + 1 else q);
                   v = q' * ulp
               in if 2 ^ 1024 \<le> v then (if n < 0 then NegInf else PosInf)
                  else Finite (if n < 0 then - int v else int v)))"

text \<open>The numeric order, addition and \<open>Math.max\<close>; NaN is contagious.\<close>

fun num_lt :: "number \<Rightarrow> number \<Rightarrow> bool" where
  "num_lt NaN b = False"
| "num_lt a NaN = False"
| "num_lt (Finite a) (Finite b) = (a < b)"
| "num_lt (Finite a) PosInf = True"
| "num_lt (Finite a) NegInf = False"
| "num_lt PosInf b = False"
| "num_lt NegInf NegInf = False"
| "num_lt NegInf b = True"

fun num_plus :: "number \<Rightarrow> number \<Rightarrow> number" where
  "num_plus NaN b = NaN"
| "num_plus a NaN = NaN"
| "num_plus (Finite a) (Finite b) = round_double (a + b)"
| "num_plus PosInf NegInf = NaN"
| "num_plus NegInf PosInf = NaN"
| "num_plus PosInf b = PosInf"
| "num_plus NegInf b = NegInf"
| "num_plus (Finite a) b = b"

fun num_max :: "number \<Rightarrow> number \<Rightarrow> number" where
  "num_max NaN b = NaN"
| "num_max a NaN = NaN"
| "num_max a b = (if num_lt a b then b else a)"

definition math_max :: "number list \<Rightarrow> number" where
  "math_max xs = fold (\<lambda>x acc. num_max acc x) xs NegInf"

text \<open>
  \<open>ToNumber\<close>. A referenced plain object or array converts through its string form; the
  conversion of a string is the runtime's.
\<close>

fun to_number :: "runtime \<Rightarrow> jsval \<Rightarrow> number" where
  "to_number rt JUndefined = NaN"
| "to_number rt JNull = Finite 0"
| "to_number rt (JBool b) = Finite (if b then 1 else 0)"
| "to_number rt (JNum n) = n"
| "to_number rt (JStr s) = stringToNumber rt s"
| "to_number rt (JRef r) = stringToNumber rt (refToString rt r)"

text \<open>
  The relational operators \<open><\<close> and \<open>>\<close>: two strings are compared by code units, anything
  else numerically; \<open>a > b\<close> is \<open>b < a\<close>.
\<close>

fun str_lt :: "string \<Rightarrow> string \<Rightarrow> bool" where
  "str_lt [] [] = False"
| "str_lt [] (b # t) = True"
| "str_lt (a # s) [] = False"
| "str_lt (a # s) (b # t) =
     ((of_char a :: nat) < of_char b \<or> (a = b \<and> str_lt s t))"

fun to_primitive :: "runtime \<Rightarrow> jsval \<Rightarrow> jsval" where
  "to_primitive rt (JRef r) = JStr (refToString rt r)"
| "to_primitive rt v = v"

fun prim_lt :: "runtime \<Rightarrow> jsval \<Rightarrow> jsval \<Rightarrow> bool" where
  "prim_lt rt (JStr s) (JStr t) = str_lt s t"
| "prim_lt rt a b = num_lt (to_number rt a) (to_number rt b)"

definition js_lt :: "runtime \<Rightarrow> jsval \<Rightarrow> jsval \<Rightarrow> bool" where
  "js_lt rt a b = prim_lt rt (to_primitive rt a) (to_primitive rt b)"

definition js_gt :: "runtime \<Rightarrow> jsval \<Rightarrow> jsval \<Rightarrow> bool" where
  "js_gt rt a b = js_lt rt b a"

subsection \<open>Objects\<close>

text \<open>
  Reading a missing key gives \<open>undefined\<close>; writing an existing key replaces its value in
  place, writing a new key appends the entry. \<open>Object.assign\<close> writes the entries of the
  source in order.
\<close>

definition obj_get :: "obj \<Rightarrow> string \<Rightarrow> jsval" where
  "obj_get ob k = (case map_of ob k of None \<Rightarrow> JUndefined | Some v \<Rightarrow> v)"

definition obj_set :: "obj \<Rightarrow> string \<Rightarrow> jsval \<Rightarrow> obj" where
  "obj_set ob k v = AList.update k v ob"

definition obj_keys :: "obj \<Rightarrow> string set" where
  "obj_keys ob = fst ` set ob"

definition obj_assign :: "obj \<Rightarrow> obj \<Rightarrow> obj" where
  "obj_assign target source = fold (\<lambda>(k, v) t. obj_set t k v) source target"

subsection \<open>Arrays\<close>

text \<open>
  \<open>Array.prototype.slice(start, end)\<close>: a relative index is clamped into the array, a
  negative one counts from the end.
\<close>

fun rel_index :: "nat \<Rightarrow> number \<Rightarrow> nat" where
  "rel_index len NaN = 0"
| "rel_index len NegInf = 0"
| "rel_index len PosInf = len"
| "rel_index len (Finite i) = (if i < 0 then nat (max (int len + i) 0) else min (nat i) len)"

definition array_slice :: "'a list \<Rightarrow> number \<Rightarrow> number option \<Rightarrow> 'a list" where
  "array_slice xs start fin =
     (let len = length xs;
          k = rel_index len start;
          final = (case fin of None \<Rightarrow> len | Some e \<Rightarrow> rel_index len e)
      in take (final - k) (drop k xs))"

text \<open>
  \<open>Array.prototype.sort(comparefn)\<close> is the runtime's \<open>arraySort\<close>. The standard fixes its
  result only for a comparator that is a consistent comparison function for the elements
  (\<open>consistent_on\<close>, the five conditions of the standard): the result is then the stable
  sort, which \<open>stable_sort\<close> computes by insertion from the right, \<open>x\<close> moving behind \<open>y\<close>
  only when \<open>comparefn(x, y) > 0\<close>. For any other comparator the result is left to the
  implementation, and the model says nothing about it. \<open>sort_conforms\<close> is the
  hypothesis that the runtime's sort follows the standard.
\<close>

fun insert_sorted :: "('a \<Rightarrow> 'a \<Rightarrow> int) \<Rightarrow> 'a \<Rightarrow> 'a list \<Rightarrow> 'a list" where
  "insert_sorted cmp x [] = [x]"
| "insert_sorted cmp x (y # ys) =
     (if cmp x y > 0 then y # insert_sorted cmp x ys else x # y # ys)"

definition stable_sort :: "('a \<Rightarrow> 'a \<Rightarrow> int) \<Rightarrow> 'a list \<Rightarrow> 'a list" where
  "stable_sort cmp xs = foldr (insert_sorted cmp) xs []"



subsection \<open>Columns, tables and the database\<close>

text \<open>
  The interfaces \<open>Column\<close>, \<open>Index\<close>, \<open>Policy\<close> and \<open>Table\<close>. Their fields carry a
  prefix here (\<open>c_\<close>, \<open>i_\<close>, \<open>p_\<close>, \<open>t_\<close>), since several of them share names such as
  \<open>name\<close>. Optional fields are options. The declared type of a column is kept as the
  string the runtime holds: the SQL recognizer stores whatever token it reads.
\<close>

record column =
  c_name :: string
  c_type :: string
  c_nullable :: bool
  c_default :: "jsval option"
  c_primary :: "bool option"
  c_unique :: "bool option"
  c_autoIncrement :: "bool option"
  c_length :: "number option"

record index_decl =
  i_name :: string
  i_columns :: "string list"
  i_unique :: bool

record policy =
  p_id :: string
  p_name :: string
  p_type :: string
  p_using :: string
  p_check :: "string option"

record table =
  t_id :: string
  t_name :: string
  t_schema :: string
  t_columns :: "column list"
  t_rows :: "obj list"
  t_indexes :: "index_decl list"
  t_policies :: "policy list"
  t_createdAt :: string
  t_updatedAt :: string

type_synonym database = "string \<rightharpoonup> (string \<rightharpoonup> table)"

text \<open>
  The state of the service: the database in memory, the snapshots written to the key-value
  store under \<open>STORAGE_KEY\<close> (newest first; the store holds the head), and how many
  identifiers and clock readings the runtime has handed out. A snapshot is recorded as the
  database at the time of the write; its JSON text is not modelled. Keeping every write,
  not only the last, lets a statement say that an operation wrote nothing.
\<close>

record state =
  database :: database
  snapshots :: "database list"
  uuids :: nat
  clock :: nat

record query_result =
  success :: bool
  data :: "obj list option"
  error :: "string option"
  rowsAffected :: "nat option"

definition saveDatabase :: "state \<Rightarrow> state" where
  "saveDatabase st = st\<lparr>snapshots := database st # snapshots st\<rparr>"

definition new_date :: "runtime \<Rightarrow> state \<Rightarrow> string \<times> state" where
  "new_date rt st = (toISOString rt (clock st), st\<lparr>clock := clock st + 1\<rparr>)"

definition new_uuid :: "runtime \<Rightarrow> state \<Rightarrow> string \<times> state" where
  "new_uuid rt st = (randomUUID rt (uuids st), st\<lparr>uuids := uuids st + 1\<rparr>)"

text \<open>
  The database and each schema are looked up by their own keys. A name that the code's
  property read would find on \<open>Object.prototype\<close> (\<open>constructor\<close>, \<open>__proto__\<close>, ...)
  without its being a key is outside the model; the statements below are about tables
  that are found as keys, about the name \<open>foo\<close>, or about calls that look nothing up.
\<close>

definition getTable :: "state \<Rightarrow> string \<Rightarrow> string \<Rightarrow> table option" where
  "getTable st schema tableName =
     (case database st schema of None \<Rightarrow> None | Some tabs \<Rightarrow> tabs tableName)"

text \<open>
  A table obtained by \<open>getTable\<close> is mutated in place; \<open>put_table\<close> writes the mutated
  table back to where it was read.
\<close>

definition put_table :: "state \<Rightarrow> string \<Rightarrow> string \<Rightarrow> table \<Rightarrow> state" where
  "put_table st schema tableName t =
     st\<lparr>database := (database st)(schema \<mapsto>
        ((case database st schema of None \<Rightarrow> Map.empty | Some tabs \<Rightarrow> tabs)(tableName \<mapsto> t)))\<rparr>"

definition not_found :: "string \<Rightarrow> string \<Rightarrow> query_result" where
  "not_found schema tableName =
     \<lparr>success = False, data = None,
      error = Some (''Table '' @ schema @ ''.'' @ tableName @ '' not found''),
      rowsAffected = None\<rparr>"

subsection \<open>select\<close>

datatype direction = ASC | DESC

record order_key =
  k_column :: string
  k_direction :: direction

record select_options =
  o_where :: "obj option"
  o_orderBy :: "order_key list option"
  o_limit :: "number option"
  o_offset :: "number option"

definition no_options :: select_options where
  "no_options = \<lparr>o_where = None, o_orderBy = None, o_limit = None, o_offset = None\<rparr>"

text \<open>\<open>Object.entries(where).every(([key, value]) => row[key] === value)\<close>\<close>

definition matches :: "obj \<Rightarrow> obj \<Rightarrow> bool" where
  "matches wh row = list_all (\<lambda>(key, v). strict_eq (obj_get row key) v) wh"

text \<open>The comparator handed to \<open>sort\<close>: the loop over the ordering keys.\<close>

fun compare_rows :: "runtime \<Rightarrow> order_key list \<Rightarrow> obj \<Rightarrow> obj \<Rightarrow> int" where
  "compare_rows rt [] a b = 0"
| "compare_rows rt (k # ks) a b =
     (let aVal = obj_get a (k_column k); bVal = obj_get b (k_column k)
      in if js_lt rt aVal bVal then (if k_direction k = ASC then - 1 else 1)
         else if js_gt rt aVal bVal then (if k_direction k = ASC then 1 else - 1)
         else compare_rows rt ks a b)"

definition select_rows :: "runtime \<Rightarrow> select_options \<Rightarrow> obj list \<Rightarrow> obj list" where
  "select_rows rt opts rows =
     (let r1 = (case o_where opts of None \<Rightarrow> rows | Some wh \<Rightarrow> filter (matches wh) rows);
          r2 = (case o_orderBy opts of None \<Rightarrow> r1
                | Some ks \<Rightarrow> arraySort rt (compare_rows rt ks) r1);
          r3 = (case o_offset opts of None \<Rightarrow> r2
                | Some off \<Rightarrow> if truthy_num off then array_slice r2 off None else r2);
          r4 = (case o_limit opts of None \<Rightarrow> r3
                | Some lim \<Rightarrow> if truthy_num lim then array_slice r3 (Finite 0) (Some lim) else r3)
      in r4)"

definition select :: "runtime \<Rightarrow> state \<Rightarrow> string \<Rightarrow> string \<Rightarrow> select_options \<Rightarrow> query_result" where
  "select rt st schema tableName opts =
     (case getTable st schema tableName of
        None \<Rightarrow> not_found schema tableName
      | Some t \<Rightarrow>
          (let results = select_rows rt opts (t_rows t)
           in \<lparr>success = True, data = Some results, error = None,
               rowsAffected = Some (length results)\<rparr>))"

subsection \<open>createTable and addColumn\<close>

definition createTable :: "state \<Rightarrow> string \<Rightarrow> table \<Rightarrow> state \<times> bool" where
  "createTable st schema t =
     (let db = (case database st schema of
                  None \<Rightarrow> (database st)(schema \<mapsto> Map.empty)
                | Some tabs \<Rightarrow> database st);
          tabs = (case db schema of None \<Rightarrow> Map.empty | Some ts \<Rightarrow> ts)
      in case tabs (t_name t) of
           Some existing \<Rightarrow> (st\<lparr>database := db\<rparr>, False)
         | None \<Rightarrow>
             (saveDatabase (st\<lparr>database := db(schema \<mapsto> tabs(t_name t \<mapsto> t))\<rparr>), True))"

text \<open>\<open>column.default || null\<close>\<close>

definition default_or_null :: "column \<Rightarrow> jsval" where
  "default_or_null col =
     (case c_default col of None \<Rightarrow> JNull | Some d \<Rightarrow> if truthy d then d else JNull)"

definition addColumn :: "runtime \<Rightarrow> state \<Rightarrow> string \<Rightarrow> string \<Rightarrow> column \<Rightarrow> state \<times> bool" where
  "addColumn rt st schema tableName col =
     (case getTable st schema tableName of
        None \<Rightarrow> (st, False)
      | Some t \<Rightarrow>
          (case find (\<lambda>c. c_name c = c_name col) (t_columns t) of
             Some c \<Rightarrow> (st, False)
           | None \<Rightarrow>
               (let rows' = map (\<lambda>row. obj_set row (c_name col) (default_or_null col)) (t_rows t);
                    (ts, st1) = new_date rt st;
                    t' = t\<lparr>t_columns := t_columns t @ [col], t_rows := rows', t_updatedAt := ts\<rparr>
                in (saveDatabase (put_table st1 schema tableName t'), True))))"

subsection \<open>insert\<close>

text \<open>
  The method \<open>insert\<close> is \<open>insert_row\<close> here (\<open>insert\<close> is the insertion into a set).
  The body of \<open>table.columns.forEach\<close> in \<open>insert\<close>: one column is resolved and written
  into the row under construction; the state is threaded because a generated identifier
  or timestamp draws from the runtime. \<open>truthy_default\<close> is the test \<open>if (col.default)\<close>,
  \<open>or_zero\<close> is \<open>r[col.name] || 0\<close>.
\<close>

definition truthy_default :: "column \<Rightarrow> jsval option" where
  "truthy_default col =
     (case c_default col of None \<Rightarrow> None | Some d \<Rightarrow> if truthy d then Some d else None)"

definition or_zero :: "jsval \<Rightarrow> jsval" where
  "or_zero v = (if truthy v then v else JNum (Finite 0))"

definition max_id :: "runtime \<Rightarrow> table \<Rightarrow> string \<Rightarrow> number" where
  "max_id rt t n =
     (if length (t_rows t) > 0
      then math_max (map (\<lambda>r. to_number rt (or_zero (obj_get r n))) (t_rows t))
      else Finite 0)"

definition insert_column :: "runtime \<Rightarrow> table \<Rightarrow> obj \<Rightarrow> column \<Rightarrow> obj \<times> state \<Rightarrow> obj \<times> state" where
  "insert_column rt t dat col acc =
     (let row = fst acc; st = snd acc; n = c_name col
      in if \<not> strict_eq (obj_get dat n) JUndefined then (obj_set row n (obj_get dat n), st)
         else (case truthy_default col of
             Some d \<Rightarrow>
               if strict_eq d (JStr ''gen_random_uuid()'')
               then (let (u, st') = new_uuid rt st in (obj_set row n (JStr u), st'))
               else if strict_eq d (JStr ''now()'')
               then (let (ts, st') = new_date rt st in (obj_set row n (JStr ts), st'))
               else (obj_set row n d, st)
           | None \<Rightarrow>
               if c_autoIncrement col = Some True
               then (obj_set row n (JNum (num_plus (max_id rt t n) (Finite 1))), st)
               else (obj_set row n JNull, st)))"

definition insert_row :: "runtime \<Rightarrow> state \<Rightarrow> string \<Rightarrow> string \<Rightarrow> obj \<Rightarrow> state \<times> query_result" where
  "insert_row rt st schema tableName dat =
     (case getTable st schema tableName of
        None \<Rightarrow> (st, not_found schema tableName)
      | Some t \<Rightarrow>
          (let (row, st1) = fold (insert_column rt t dat) (t_columns t) ([], st);
               (ts, st2) = new_date rt st1;
               t' = t\<lparr>t_rows := t_rows t @ [row], t_updatedAt := ts\<rparr>
           in (saveDatabase (put_table st2 schema tableName t'),
               \<lparr>success = True, data = Some [row], error = None, rowsAffected = Some 1\<rparr>)))"

subsection \<open>update\<close>

text \<open>
  The body of \<open>table.rows.forEach\<close> in \<open>update\<close>: a matching row receives the entries of
  \<open>data\<close> and the counter goes up. The rows are mutated whether or not the table is saved
  afterwards; the timestamp and the snapshot are written only when the counter is positive.
\<close>

definition update_step :: "obj \<Rightarrow> obj \<Rightarrow> obj \<Rightarrow> obj list \<times> nat \<Rightarrow> obj list \<times> nat" where
  "update_step wh dat row acc =
     (if matches wh row then (fst acc @ [obj_assign row dat], snd acc + 1)
      else (fst acc @ [row], snd acc))"

definition update :: "runtime \<Rightarrow> state \<Rightarrow> string \<Rightarrow> string \<Rightarrow> obj \<Rightarrow> obj \<Rightarrow> state \<times> query_result" where
  "update rt st schema tableName wh dat =
     (case getTable st schema tableName of
        None \<Rightarrow> (st, not_found schema tableName)
      | Some t \<Rightarrow>
          (let (rows', n) = fold (update_step wh dat) (t_rows t) ([], 0);
               t1 = t\<lparr>t_rows := rows'\<rparr>;
               st1 = put_table st schema tableName t1;
               st2 = (if n > 0
                      then (let (ts, s) = new_date rt st1
                            in saveDatabase (put_table s schema tableName (t1\<lparr>t_updatedAt := ts\<rparr>)))
                      else st1)
           in (st2, \<lparr>success = True, data = None, error = None, rowsAffected = Some n\<rparr>)))"

subsection \<open>Strings and regular expressions\<close>

text \<open>
  Characters are code units below 256. \<open>toUpperCase\<close> is modelled on the ASCII letters;
  the engine only tests the upper-cased text for an ASCII prefix, and no other character
  of this range upper-cases to an ASCII letter. \<open>String.prototype.includes\<close> is
  \<open>str_includes\<close>.
\<close>

definition code :: "char \<Rightarrow> nat" where
  "code c = of_char c"

definition is_space :: "char \<Rightarrow> bool" where
  "is_space c = (code c \<in> {9, 10, 11, 12, 13, 32, 160})"

definition is_word :: "char \<Rightarrow> bool" where
  "is_word c =
     ((65 \<le> code c \<and> code c \<le> 90) \<or> (97 \<le> code c \<and> code c \<le> 122)
      \<or> (48 \<le> code c \<and> code c \<le> 57) \<or> code c = 95)"

definition is_line_terminator :: "char \<Rightarrow> bool" where
  "is_line_terminator c = (code c = 10 \<or> code c = 13)"

definition upper_char :: "char \<Rightarrow> char" where
  "upper_char c = (if 97 \<le> code c \<and> code c \<le> 122 then char_of (code c - 32) else c)"

definition toUpperCase :: "string \<Rightarrow> string" where
  "toUpperCase s = map upper_char s"

definition trim :: "string \<Rightarrow> string" where
  "trim s = rev (dropWhile is_space (rev (dropWhile is_space s)))"

fun startsWith :: "string \<Rightarrow> string \<Rightarrow> bool" where
  "startsWith s [] = True"
| "startsWith [] (p # ps) = False"
| "startsWith (c # s) (p # ps) = (c = p \<and> startsWith s ps)"

fun str_includes :: "string \<Rightarrow> string \<Rightarrow> bool" where
  "str_includes [] sub = (sub = [])"
| "str_includes (c # s) sub = (startsWith (c # s) sub \<or> str_includes s sub)"

text \<open>\<open>s.split(',')\<close>: splitting at every occurrence of one character.\<close>

fun split_char :: "char \<Rightarrow> string \<Rightarrow> string list" where
  "split_char sep [] = [[]]"
| "split_char sep (c # s) =
     (case split_char sep s of
        [] \<Rightarrow> [[]]
      | p # ps \<Rightarrow> if c = sep then [] # p # ps else (c # p) # ps)"

text \<open>
  \<open>s.split(/\s+/)\<close>: splitting at every maximal run of white space. The flag says that the
  previous character belonged to a run.
\<close>

fun split_spaces_from :: "bool \<Rightarrow> string \<Rightarrow> string list" where
  "split_spaces_from in_run [] = [[]]"
| "split_spaces_from in_run (c # s) =
     (if is_space c
      then (if in_run then split_spaces_from True s else [] # split_spaces_from True s)
      else (case split_spaces_from False s of
              [] \<Rightarrow> [[c]]
            | p # ps \<Rightarrow> (c # p) # ps))"

definition split_spaces :: "string \<Rightarrow> string list" where
  "split_spaces s = split_spaces_from False s"

text \<open>
  The fragment of regular expressions the two patterns use, under the flag \<open>i\<close>: a literal
  character matched without regard to case, the classes \<open>\w\<close>, \<open>\s\<close> and \<open>.\<close>, the greedy
  quantifiers \<open>*\<close> and \<open>+\<close> on a class, \<open>?\<close>, capture groups and concatenation. The
  matcher backtracks as the language's does: a quantifier takes as much as it can and gives
  back one character at a time, \<open>?\<close> first tries to match; the continuation is the rest of
  the pattern.
\<close>

datatype atom = Lit char | WordCh | SpaceCh | AnyCh

fun atom_ok :: "atom \<Rightarrow> char \<Rightarrow> bool" where
  "atom_ok (Lit p) c = (upper_char c = upper_char p)"
| "atom_ok WordCh c = is_word c"
| "atom_ok SpaceCh c = is_space c"
| "atom_ok AnyCh c = (\<not> is_line_terminator c)"

datatype regex = Eps | Atom atom | Star atom | Plus atom | Opt regex | Group nat regex
  | Cat regex regex

type_synonym captures = "nat \<Rightarrow> string option"

fun star_m :: "atom \<Rightarrow> string \<Rightarrow> (string \<Rightarrow> 'r option) \<Rightarrow> 'r option" where
  "star_m a [] k = k []"
| "star_m a (c # s) k =
     (if atom_ok a c
      then (case star_m a s k of Some r \<Rightarrow> Some r | None \<Rightarrow> k (c # s))
      else k (c # s))"

fun re_m :: "regex \<Rightarrow> string \<Rightarrow> captures \<Rightarrow> (string \<Rightarrow> captures \<Rightarrow> 'r option) \<Rightarrow> 'r option" where
  "re_m Eps s cs k = k s cs"
| "re_m (Atom a) s cs k =
     (case s of [] \<Rightarrow> None | c # t \<Rightarrow> if atom_ok a c then k t cs else None)"
| "re_m (Star a) s cs k = star_m a s (\<lambda>t. k t cs)"
| "re_m (Plus a) s cs k =
     (case s of [] \<Rightarrow> None
      | c # t \<Rightarrow> if atom_ok a c then star_m a t (\<lambda>u. k u cs) else None)"
| "re_m (Opt r) s cs k = (case re_m r s cs k of Some x \<Rightarrow> Some x | None \<Rightarrow> k s cs)"
| "re_m (Group i r) s cs k =
     re_m r s cs (\<lambda>t cs'. k t (cs'(i \<mapsto> take (length s - length t) s)))"
| "re_m (Cat r1 r2) s cs k = re_m r1 s cs (\<lambda>t cs'. re_m r2 t cs' k)"

text \<open>\<open>s.match(re)\<close> without the flag \<open>g\<close>: the first start position that matches.\<close>

fun string_match :: "regex \<Rightarrow> string \<Rightarrow> captures option" where
  "string_match r [] = re_m r [] Map.empty (\<lambda>t cs. Some cs)"
| "string_match r (c # s) =
     (case re_m r (c # s) Map.empty (\<lambda>t cs. Some cs) of
        Some cs \<Rightarrow> Some cs
      | None \<Rightarrow> string_match r s)"

definition re_seq :: "regex list \<Rightarrow> regex" where
  "re_seq rs = foldr Cat rs Eps"

definition re_text :: "string \<Rightarrow> regex" where
  "re_text s = re_seq (map (\<lambda>c. Atom (Lit c)) s)"

text \<open>\<open>/CREATE TABLE (\w+)\.?(\w+)?\s*\((.*)\)/i\<close> and \<open>/SELECT .* FROM (\w+)\.?(\w+)?/i\<close>\<close>

definition create_table_re :: regex where
  "create_table_re =
     re_seq [re_text ''CREATE TABLE '', Group 1 (Plus WordCh), Opt (Atom (Lit CHR ''.'')),
             Opt (Group 2 (Plus WordCh)), Star SpaceCh, Atom (Lit CHR ''(''),
             Group 3 (Star AnyCh), Atom (Lit CHR '')'')]"

definition select_re :: regex where
  "select_re =
     re_seq [re_text ''SELECT '', Star AnyCh, re_text '' FROM '', Group 1 (Plus WordCh),
             Opt (Atom (Lit CHR ''.'')), Opt (Group 2 (Plus WordCh))]"

subsection \<open>executeSQL\<close>

text \<open>
  A capture group that took no part in the match is \<open>undefined\<close>; groups 1 and 3 take
  part in every match of their pattern. \<open>group_given\<close> is the truthiness of \<open>match[i]\<close>.
\<close>

definition group_text :: "captures \<Rightarrow> nat \<Rightarrow> string" where
  "group_text m i = (case m i of None \<Rightarrow> [] | Some s \<Rightarrow> s)"

definition group_given :: "captures \<Rightarrow> nat \<Rightarrow> bool" where
  "group_given m i = (case m i of None \<Rightarrow> False | Some s \<Rightarrow> s \<noteq> [])"

definition match_schema :: "captures \<Rightarrow> string" where
  "match_schema m = (if group_given m 2 then group_text m 1 else ''public'')"

definition match_table :: "captures \<Rightarrow> string" where
  "match_table m = (if group_given m 2 then group_text m 2 else group_text m 1)"

definition parse_column :: "string \<Rightarrow> column" where
  "parse_column colDef =
     (let parts = split_spaces (trim colDef)
      in \<lparr>c_name = (case parts of [] \<Rightarrow> [] | p0 # ps \<Rightarrow> p0),
          c_type = (case parts of p0 # p1 # ps \<Rightarrow> if p1 \<noteq> [] then p1 else ''TEXT''
                    | _ \<Rightarrow> ''TEXT''),
          c_nullable = (\<not> str_includes colDef ''NOT NULL''),
          c_default = None,
          c_primary = Some (str_includes colDef ''PRIMARY KEY''),
          c_unique = Some (str_includes colDef ''UNIQUE''),
          c_autoIncrement = None,
          c_length = None\<rparr>)"

definition not_implemented :: query_result where
  "not_implemented =
     \<lparr>success = False, data = None,
      error = Some ''SQL parsing not fully implemented for this query'',
      rowsAffected = None\<rparr>"

definition create_match :: "string \<Rightarrow> captures option" where
  "create_match sql =
     (if startsWith (toUpperCase (trim sql)) ''CREATE TABLE''
      then string_match create_table_re sql else None)"

definition select_match :: "string \<Rightarrow> captures option" where
  "select_match sql =
     (if startsWith (toUpperCase (trim sql)) ''SELECT''
      then string_match select_re sql else None)"

text \<open>
  The two \<open>if\<close> blocks inside \<open>try\<close>. A block that returns gives \<open>Some\<close> of the new state
  and the result; a block whose keyword test or pattern match fails gives \<open>None\<close>, and
  control goes on to the statement after it.
\<close>

definition create_block :: "runtime \<Rightarrow> state \<Rightarrow> string \<Rightarrow> (state \<times> query_result) option" where
  "create_block rt st sql =
     (case create_match sql of
        None \<Rightarrow> None
      | Some m \<Rightarrow>
          (let columns = map parse_column (split_char CHR '','' (group_text m 3));
               (uid, st1) = new_uuid rt st;
               (created, st2) = new_date rt st1;
               (updated, st3) = new_date rt st2;
               t = \<lparr>t_id = uid, t_name = match_table m, t_schema = match_schema m,
                    t_columns = columns, t_rows = [], t_indexes = [], t_policies = [],
                    t_createdAt = created, t_updatedAt = updated\<rparr>;
               (st4, created_ok) = createTable st3 (match_schema m) t
           in Some (st4, \<lparr>success = True, data = Some [], error = None,
                         rowsAffected = Some 0\<rparr>)))"

definition select_block :: "runtime \<Rightarrow> state \<Rightarrow> string \<Rightarrow> (state \<times> query_result) option" where
  "select_block rt st sql =
     (case select_match sql of
        None \<Rightarrow> None
      | Some m \<Rightarrow> Some (st, select rt st (match_schema m) (match_table m) no_options))"

text \<open>
  The value \<open>executeSQL\<close> resolves to is an option: \<open>None\<close> would be a call that reaches
  the end of the function body without a \<open>return\<close>. No operation the body calls throws in
  this model, so the \<open>catch\<close> clause has no branch.
\<close>

definition executeSQL :: "runtime \<Rightarrow> state \<Rightarrow> string \<Rightarrow> state \<times> query_result option" where
  "executeSQL rt st sql =
     (case create_block rt st sql of
        Some (st', r) \<Rightarrow> (st', Some r)
      | None \<Rightarrow>
          (case select_block rt st sql of
             Some (st', r) \<Rightarrow> (st', Some r)
           | None \<Rightarrow> (st, Some not_implemented)))"

section \<open>Example data and notions used in the statements\<close>


definition int_at :: "string \<Rightarrow> obj \<Rightarrow> int" where
  "int_at x row = (case obj_get row x of JNum (Finite n) \<Rightarrow> n | _ \<Rightarrow> 0)"


definition nat_num :: "nat \<Rightarrow> number" where
  "nat_num n = Finite (int n)"

subsection \<open>The order asked for by an ordering\<close>







text \<open>The rows that pass the equality filter of \<open>where\<close>, all of them when there is none.\<close>

definition kept_rows :: "obj option \<Rightarrow> obj list \<Rightarrow> obj list" where
  "kept_rows wh rows =
     (case wh of None \<Rightarrow> rows
      | Some w \<Rightarrow> filter (\<lambda>row. \<forall>(k, v) \<in> set w. strict_eq (obj_get row k) v) rows)"

subsection \<open>Example data\<close>

text \<open>
  The example runtime hands out \<open>uuid-\<close>, \<open>uuid-i\<close>, \<open>uuid-ii\<close>, ... as identifiers and
  \<open>T\<close>, \<open>Ti\<close>, \<open>Tii\<close>, ... as clock readings, and sorts by \<open>stable_sort\<close>; no example
  converts a string to a number.
  The example states hold schema \<open>public\<close>, empty or with one table \<open>t\<close>.
\<close>

definition demo_runtime :: runtime where
  "demo_runtime = \<lparr>randomUUID = (\<lambda>n. ''uuid-'' @ replicate n CHR ''i''),
     toISOString = (\<lambda>n. ''T'' @ replicate n CHR ''i''),
     stringToNumber = (\<lambda>s. NaN), refToString = (\<lambda>r. ''[object Object]''),
     arraySort = stable_sort\<rparr>"

definition demo_table :: "column list \<Rightarrow> obj list \<Rightarrow> table" where
  "demo_table cols rows = \<lparr>t_id = ''t0'', t_name = ''t'', t_schema = ''public'',
      t_columns = cols, t_rows = rows, t_indexes = [], t_policies = [],
      t_createdAt = ''T'', t_updatedAt = ''T''\<rparr>"

definition demo_state :: "table \<Rightarrow> state" where
  "demo_state t =
     \<lparr>database = [''public'' \<mapsto> [''t'' \<mapsto> t]], snapshots = [], uuids = 0, clock = 0\<rparr>"

definition empty_state :: state where
  "empty_state =
     \<lparr>database = [''public'' \<mapsto> Map.empty], snapshots = [], uuids = 0, clock = 0\<rparr>"

definition plain_column :: "string \<Rightarrow> string \<Rightarrow> column" where
  "plain_column n ty = \<lparr>c_name = n, c_type = ty, c_nullable = True, c_default = None,
     c_primary = None, c_unique = None, c_autoIncrement = None, c_length = None\<rparr>"

text \<open>Rows \<open>{x: n}\<close> and \<open>{id: n}\<close>; the rows \<open>{x:3}, {x:1}, {x:2}\<close>; a table holding them.\<close>

definition row_x :: "int \<Rightarrow> obj" where
  "row_x n = [(''x'', JNum (Finite n))]"

definition row_id :: "int \<Rightarrow> obj" where
  "row_id n = [(''id'', JNum (Finite n))]"

definition three_rows :: "obj list" where
  "three_rows = [row_x 3, row_x 1, row_x 2]"

definition x_table :: table where
  "x_table = demo_table [plain_column ''x'' ''INTEGER''] three_rows"






text \<open>
  An auto-increment column \<open>id\<close> and a table with it; a BOOLEAN column whose default is
  \<open>false\<close>; an INTEGER column whose default is 0.
\<close>

definition id_column :: column where
  "id_column = (plain_column ''id'' ''INTEGER'')\<lparr>c_autoIncrement := Some True\<rparr>"

definition id_table :: "obj list \<Rightarrow> table" where
  "id_table rows = demo_table [id_column, plain_column ''x'' ''INTEGER''] rows"

definition active_column :: column where
  "active_column = (plain_column ''active'' ''BOOLEAN'')
     \<lparr>c_nullable := False, c_default := Some (JBool False)\<rparr>"

definition count_column :: column where
  "count_column = (plain_column ''count'' ''INTEGER'')
     \<lparr>c_nullable := False, c_default := Some (JNum (Finite 0))\<rparr>"

text \<open>The statement of the CREATE TABLE example and the columns it declares.\<close>

definition create_foo_sql :: string where
  "create_foo_sql = ''CREATE TABLE public.foo (id UUID PRIMARY KEY, name VARCHAR NOT NULL)''"

definition foo_columns :: "column list" where
  "foo_columns =
     [\<lparr>c_name = ''id'', c_type = ''UUID'', c_nullable = True, c_default = None,
       c_primary = Some True, c_unique = Some False, c_autoIncrement = None, c_length = None\<rparr>,
      \<lparr>c_name = ''name'', c_type = ''VARCHAR'', c_nullable = False, c_default = None,
       c_primary = Some False, c_unique = Some False, c_autoIncrement = None, c_length = None\<rparr>]"


section \<open>Properties\<close>

subsection \<open>Objects and lookups\<close>

lemma getTable_demo: "getTable (demo_state t) ''public'' ''t'' = Some t"
  by (simp add: getTable_def demo_state_def)

lemma slice_drop: "array_slice xs (Finite (int n)) None = drop n xs"
  by (simp add: array_slice_def Let_def min_def)

lemma slice_take: "array_slice xs (Finite 0) (Some (Finite (int n))) = take n xs"
  by (simp add: array_slice_def Let_def min_def)

lemma matches_iff: "matches wh row \<longleftrightarrow> (\<forall>(k, v) \<in> set wh. strict_eq (obj_get row k) v)"
  by (auto simp: matches_def list_all_iff)

lemma map_of_obj_set: "map_of (obj_set ob k v) = (map_of ob)(k \<mapsto> v)"
  by (simp add: obj_set_def update_conv')

lemma obj_keys_obj_set: "obj_keys (obj_set ob k v) = insert k (obj_keys ob)"
  by (simp add: obj_set_def obj_keys_def dom_update)

lemma obj_get_obj_set: "obj_get (obj_set ob k v) k' = (if k' = k then v else obj_get ob k')"
  by (simp add: obj_get_def map_of_obj_set)

lemma map_of_obj_assign: "map_of (obj_assign row dat) = map_of row ++ map_of (rev dat)"
  unfolding obj_assign_def
proof (induction dat arbitrary: row)
  case Nil
  then show ?case by simp
next
  case (Cons e dat)
  obtain k v where e: "e = (k, v)" by (cases e)
  have "map_of (fold (\<lambda>(k, v) t. obj_set t k v) dat (obj_set row k v))
      = map_of (obj_set row k v) ++ map_of (rev dat)"
    by (rule Cons.IH)
  also have "\<dots> = map_of row ++ (map_of [(k, v)] ++ map_of (rev dat))"
    by (simp add: map_of_obj_set)
  finally show ?case by (simp add: e)
qed

lemma obj_keys_obj_assign: "obj_keys (obj_assign row dat) = obj_keys row \<union> obj_keys dat"
proof -
  have "dom (map_of (obj_assign row dat)) = dom (map_of row) \<union> dom (map_of (rev dat))"
    by (simp add: map_of_obj_assign Un_commute)
  then show ?thesis by (simp add: dom_map_of_conv_image_fst obj_keys_def)
qed

lemma map_of_rev_distinct:
  assumes "distinct (map fst dat)"
  shows "map_of (rev dat) = map_of dat"
  using assms
proof (induction dat)
  case Nil
  then show ?case by simp
next
  case (Cons e dat)
  obtain k v where e: "e = (k, v)" by (cases e)
  have "k \<notin> dom (map_of dat)" using Cons.prems by (simp add: e dom_map_of_conv_image_fst)
  then have "map_of dat k = None" by blast
  then have "map_of [(k, v)] ++ map_of dat = (map_of dat)(k \<mapsto> v)"
    by (auto simp: map_add_def fun_eq_iff split: option.splits)
  then show ?case using Cons by (simp add: e)
qed

lemma obj_get_obj_assign:
  assumes "distinct (map fst dat)"
  shows "obj_get (obj_assign row dat) k
     = (if k \<in> obj_keys dat then obj_get dat k else obj_get row k)"
proof (cases "map_of dat k")
  case None
  then have "k \<notin> obj_keys dat"
    by (metis domIff dom_map_of_conv_image_fst obj_keys_def)
  then show ?thesis
    using None by (simp add: obj_get_def map_of_obj_assign map_of_rev_distinct [OF assms] map_add_def)
next
  case (Some v)
  then have "k \<in> obj_keys dat"
    by (metis domI dom_map_of_conv_image_fst obj_keys_def)
  then show ?thesis
    using Some by (simp add: obj_get_def map_of_obj_assign map_of_rev_distinct [OF assms] map_add_def)
qed

subsection \<open>Sorting\<close>





lemma sort_example_asc:
  "stable_sort (compare_rows rt [\<lparr>k_column = ''x'', k_direction = ASC\<rparr>]) [row_x 3, row_x 1, row_x 2]
     = [row_x 1, row_x 2, row_x 3]"
  by (simp add: stable_sort_def row_x_def obj_get_def js_lt_def js_gt_def)

lemma sort_example_desc:
  "stable_sort (compare_rows rt [\<lparr>k_column = ''x'', k_direction = DESC\<rparr>]) [row_x 3, row_x 1, row_x 2]
     = [row_x 3, row_x 2, row_x 1]"
  by (simp add: stable_sort_def row_x_def obj_get_def js_lt_def js_gt_def)























subsection \<open>select\<close>

lemma select_found:
  assumes "getTable st schema tableName = Some t"
  shows "select rt st schema tableName opts
     = \<lparr>success = True, data = Some (select_rows rt opts (t_rows t)), error = None,
        rowsAffected = Some (length (select_rows rt opts (t_rows t)))\<rparr>"
  using assms by (simp add: select_def Let_def)

lemma filter_matches:
  "filter (matches w) rows = filter (\<lambda>row. \<forall>(k, v) \<in> set w. strict_eq (obj_get row k) v) rows"
  by (rule filter_cong) (auto simp: matches_iff)


lemma select_rows_nat:
  "select_rows rt \<lparr>o_where = wh, o_orderBy = ob, o_limit = map_option nat_num lim,
                   o_offset = map_option nat_num off\<rparr> rows
   = (let kept = kept_rows wh rows;
          ordered = (case ob of None \<Rightarrow> kept | Some ks \<Rightarrow> arraySort rt (compare_rows rt ks) kept);
          skipped = (case off of None \<Rightarrow> ordered | Some n \<Rightarrow> drop n ordered)
      in case lim of None \<Rightarrow> skipped | Some n \<Rightarrow> if n = 0 then skipped else take n skipped)"
  by (simp add: select_rows_def nat_num_def slice_drop slice_take filter_matches Let_def
      kept_rows_def split: option.split)





text \<open>
  What \<open>select\<close> does hold to, for an existing table and an offset and a limit that are
  natural numbers or absent: the rows that pass the equality filter, sorted by the runtime
  when \<open>orderBy\<close> is given, without the first \<open>offset\<close> rows, cut to \<open>limit\<close> rows when the
  limit is not 0; \<open>rowsAffected\<close> is the number of rows returned. With offset 1 and limit 1
  the rows A, B, C yield exactly B.
\<close>

lemma select_pipeline:
  assumes "getTable st schema tableName = Some t"
  shows "select rt st schema tableName
           \<lparr>o_where = wh, o_orderBy = ob, o_limit = map_option nat_num lim,
            o_offset = map_option nat_num off\<rparr>
         = (let kept = kept_rows wh (t_rows t);
                ordered = (case ob of None \<Rightarrow> kept
                           | Some ks \<Rightarrow> arraySort rt (compare_rows rt ks) kept);
                skipped = (case off of None \<Rightarrow> ordered | Some n \<Rightarrow> drop n ordered);
                page = (case lim of None \<Rightarrow> skipped
                        | Some n \<Rightarrow> if n = 0 then skipped else take n skipped)
            in \<lparr>success = True, data = Some page, error = None,
                rowsAffected = Some (length page)\<rparr>)"
    and "t_rows t = [A, B, C] \<Longrightarrow>
            select rt st schema tableName
              \<lparr>o_where = None, o_orderBy = None, o_limit = Some (Finite 1),
               o_offset = Some (Finite 1)\<rparr>
            = \<lparr>success = True, data = Some [B], error = None, rowsAffected = Some 1\<rparr>"
proof -
  show "select rt st schema tableName
           \<lparr>o_where = wh, o_orderBy = ob, o_limit = map_option nat_num lim,
            o_offset = map_option nat_num off\<rparr>
         = (let kept = kept_rows wh (t_rows t);
                ordered = (case ob of None \<Rightarrow> kept
                           | Some ks \<Rightarrow> arraySort rt (compare_rows rt ks) kept);
                skipped = (case off of None \<Rightarrow> ordered | Some n \<Rightarrow> drop n ordered);
                page = (case lim of None \<Rightarrow> skipped
                        | Some n \<Rightarrow> if n = 0 then skipped else take n skipped)
            in \<lparr>success = True, data = Some page, error = None,
                rowsAffected = Some (length page)\<rparr>)"
    using assms by (simp add: select_found select_rows_nat Let_def)
next
  assume r: "t_rows t = [A, B, C]"
  have one: "Finite 1 = nat_num 1" by (simp add: nat_num_def)
  have "select_rows rt \<lparr>o_where = None, o_orderBy = None, o_limit = Some (Finite 1),
               o_offset = Some (Finite 1)\<rparr> [A, B, C] = [B]"
    using select_rows_nat [of rt None None "Some 1" "Some 1" "[A, B, C]"]
    by (simp add: one kept_rows_def)
  then show "select rt st schema tableName
              \<lparr>o_where = None, o_orderBy = None, o_limit = Some (Finite 1),
               o_offset = Some (Finite 1)\<rparr>
            = \<lparr>success = True, data = Some [B], error = None, rowsAffected = Some 1\<rparr>"
    using assms r by (simp add: select_found)
qed

text \<open>
  C3 at limit 0. \<open>select\<close> is to keep at most \<open>limit\<close> rows, and the source announces the
  step as ``Apply LIMIT and OFFSET''; but its guard \<open>if (options.limit)\<close> takes a limit of 0
  for an absent one and skips the slice. On the table holding \<open>{x:3}, {x:1}, {x:2}\<close> a
  limit of 0 returns all three rows, where at most 0 rows are asked for; a limit of 1 is
  applied and returns one row.
\<close>

theorem select_limit_zero_returns_all:
  "select demo_runtime (demo_state (demo_table [] three_rows)) ''public'' ''t''
     \<lparr>o_where = None, o_orderBy = None, o_limit = Some (Finite 0), o_offset = None\<rparr>
   = \<lparr>success = True, data = Some [row_x 3, row_x 1, row_x 2], error = None,
      rowsAffected = Some 3\<rparr>
   \<and> select demo_runtime (demo_state (demo_table [] three_rows)) ''public'' ''t''
     \<lparr>o_where = None, o_orderBy = None, o_limit = Some (Finite 1), o_offset = None\<rparr>
   = \<lparr>success = True, data = Some [row_x 3], error = None, rowsAffected = Some 1\<rparr>"
  by (simp add: select_found [OF getTable_demo] select_rows_def array_slice_def
      demo_table_def three_rows_def)

text \<open>
  C9. A limit of 0 is the same as no limit and an offset of 0 the same as no offset,
  whatever the other options are. For an existing table, \<open>select\<close> with limit 0 returns
  every row that passes the \<open>where\<close> filter, in the order \<open>orderBy\<close> asks for, from
  position \<open>offset\<close> on, and none of them is cut; with no other option that is every row of
  the table. With offset 0 no row is skipped: the filtered and ordered rows are returned
  from the first one on, cut to \<open>limit\<close> rows only when the limit is not 0.
\<close>

theorem select_zero_is_omitted:
  "select rt st schema tableName (opts\<lparr>o_limit := Some (Finite 0)\<rparr>)
     = select rt st schema tableName (opts\<lparr>o_limit := None\<rparr>)
   \<and> select rt st schema tableName (opts\<lparr>o_offset := Some (Finite 0)\<rparr>)
     = select rt st schema tableName (opts\<lparr>o_offset := None\<rparr>)
   \<and> (getTable st schema tableName = Some t \<longrightarrow>
        select rt st schema tableName (no_options\<lparr>o_limit := Some (Finite 0)\<rparr>)
        = \<lparr>success = True, data = Some (t_rows t), error = None,
           rowsAffected = Some (length (t_rows t))\<rparr>
        \<and> select rt st schema tableName
             \<lparr>o_where = wh, o_orderBy = ob, o_limit = Some (Finite 0),
              o_offset = map_option nat_num off\<rparr>
           = (let kept = kept_rows wh (t_rows t);
                  ordered = (case ob of None \<Rightarrow> kept
                             | Some ks \<Rightarrow> arraySort rt (compare_rows rt ks) kept);
                  skipped = (case off of None \<Rightarrow> ordered | Some n \<Rightarrow> drop n ordered)
              in \<lparr>success = True, data = Some skipped, error = None,
                  rowsAffected = Some (length skipped)\<rparr>)
        \<and> select rt st schema tableName
             \<lparr>o_where = wh, o_orderBy = ob, o_limit = map_option nat_num lim,
              o_offset = Some (Finite 0)\<rparr>
           = (let kept = kept_rows wh (t_rows t);
                  ordered = (case ob of None \<Rightarrow> kept
                             | Some ks \<Rightarrow> arraySort rt (compare_rows rt ks) kept);
                  page = (case lim of None \<Rightarrow> ordered
                          | Some n \<Rightarrow> if n = 0 then ordered else take n ordered)
              in \<lparr>success = True, data = Some page, error = None,
                  rowsAffected = Some (length page)\<rparr>))"
proof (intro conjI impI)
  show "select rt st schema tableName (opts\<lparr>o_limit := Some (Finite 0)\<rparr>)
     = select rt st schema tableName (opts\<lparr>o_limit := None\<rparr>)"
    by (simp add: select_def select_rows_def split: option.split)
next
  show "select rt st schema tableName (opts\<lparr>o_offset := Some (Finite 0)\<rparr>)
     = select rt st schema tableName (opts\<lparr>o_offset := None\<rparr>)"
    by (simp add: select_def select_rows_def split: option.split)
next
  assume "getTable st schema tableName = Some t"
  then show "select rt st schema tableName (no_options\<lparr>o_limit := Some (Finite 0)\<rparr>)
        = \<lparr>success = True, data = Some (t_rows t), error = None,
           rowsAffected = Some (length (t_rows t))\<rparr>"
    by (simp add: select_found select_rows_def no_options_def)
next
  assume g: "getTable st schema tableName = Some t"
  have z: "Some (Finite 0) = map_option nat_num (Some 0)" by (simp add: nat_num_def)
  show "select rt st schema tableName
             \<lparr>o_where = wh, o_orderBy = ob, o_limit = Some (Finite 0),
              o_offset = map_option nat_num off\<rparr>
           = (let kept = kept_rows wh (t_rows t);
                  ordered = (case ob of None \<Rightarrow> kept
                             | Some ks \<Rightarrow> arraySort rt (compare_rows rt ks) kept);
                  skipped = (case off of None \<Rightarrow> ordered | Some n \<Rightarrow> drop n ordered)
              in \<lparr>success = True, data = Some skipped, error = None,
                  rowsAffected = Some (length skipped)\<rparr>)"
    unfolding select_found [OF g] z select_rows_nat by (simp add: Let_def)
next
  assume g: "getTable st schema tableName = Some t"
  have z: "Some (Finite 0) = map_option nat_num (Some 0)" by (simp add: nat_num_def)
  show "select rt st schema tableName
             \<lparr>o_where = wh, o_orderBy = ob, o_limit = map_option nat_num lim,
              o_offset = Some (Finite 0)\<rparr>
           = (let kept = kept_rows wh (t_rows t);
                  ordered = (case ob of None \<Rightarrow> kept
                             | Some ks \<Rightarrow> arraySort rt (compare_rows rt ks) kept);
                  page = (case lim of None \<Rightarrow> ordered
                          | Some n \<Rightarrow> if n = 0 then ordered else take n ordered)
              in \<lparr>success = True, data = Some page, error = None,
                  rowsAffected = Some (length page)\<rparr>)"
    unfolding select_found [OF g] z select_rows_nat by (simp add: Let_def)
qed

theorem select_zero_is_omitted_witness:
  "getTable (demo_state (demo_table [] three_rows)) ''public'' ''t'' = Some (demo_table [] three_rows)
   \<and> select demo_runtime (demo_state (demo_table [] three_rows)) ''public'' ''t''
        (no_options\<lparr>o_limit := Some (Finite 0)\<rparr>)
      = \<lparr>success = True, data = Some three_rows, error = None, rowsAffected = Some 3\<rparr>
   \<and> select demo_runtime (demo_state (demo_table [] three_rows)) ''public'' ''t''
        (no_options\<lparr>o_limit := Some (Finite 2), o_offset := Some (Finite 0)\<rparr>)
      = \<lparr>success = True, data = Some [row_x 3, row_x 1], error = None, rowsAffected = Some 2\<rparr>
   \<and> select demo_runtime (demo_state (demo_table [] three_rows)) ''public'' ''t''
        \<lparr>o_where = Some [(''x'', JNum (Finite 3))], o_orderBy = None,
         o_limit = Some (Finite 0), o_offset = None\<rparr>
      = \<lparr>success = True, data = Some [row_x 3], error = None, rowsAffected = Some 1\<rparr>
   \<and> select demo_runtime (demo_state (demo_table [] three_rows)) ''public'' ''t''
        \<lparr>o_where = None, o_orderBy = Some [\<lparr>k_column = ''x'', k_direction = ASC\<rparr>],
         o_limit = Some (Finite 0), o_offset = Some (Finite 1)\<rparr>
      = \<lparr>success = True, data = Some [row_x 2, row_x 3], error = None, rowsAffected = Some 2\<rparr>
   \<and> select demo_runtime (demo_state (demo_table [] three_rows)) ''public'' ''t''
        \<lparr>o_where = None, o_orderBy = Some [\<lparr>k_column = ''x'', k_direction = DESC\<rparr>],
         o_limit = Some (Finite 1), o_offset = Some (Finite 0)\<rparr>
      = \<lparr>success = True, data = Some [row_x 3], error = None, rowsAffected = Some 1\<rparr>"
proof -
  let ?st = "demo_state (demo_table [] three_rows)"
  have g: "getTable ?st ''public'' ''t'' = Some (demo_table [] three_rows)"
    by (rule getTable_demo)
  have r: "t_rows (demo_table [] three_rows) = three_rows"
    by (simp add: demo_table_def)
  have l: "length three_rows = 3" by (simp add: three_rows_def)
  have s: "select demo_runtime ?st ''public'' ''t''
        (no_options\<lparr>o_limit := Some (Finite 2), o_offset := None\<rparr>)
      = \<lparr>success = True, data = Some [row_x 3, row_x 1], error = None, rowsAffected = Some 2\<rparr>"
    unfolding select_found [OF g] r
    by (simp add: select_rows_def no_options_def three_rows_def array_slice_def)
  note th = select_zero_is_omitted [where rt = demo_runtime and st = ?st
      and schema = "''public''" and tableName = "''t''" and t = "demo_table [] three_rows"]
  note th1 = th [where opts = "no_options\<lparr>o_limit := Some (Finite 2)\<rparr>"]
  have a: "select demo_runtime ?st ''public'' ''t'' (no_options\<lparr>o_limit := Some (Finite 0)\<rparr>)
      = \<lparr>success = True, data = Some three_rows, error = None, rowsAffected = Some 3\<rparr>"
    using th1 [THEN conjunct2, THEN conjunct2, THEN mp, OF g, THEN conjunct1]
    by (simp add: r l)
  have b: "select demo_runtime ?st ''public'' ''t''
        (no_options\<lparr>o_limit := Some (Finite 2), o_offset := Some (Finite 0)\<rparr>)
      = \<lparr>success = True, data = Some [row_x 3, row_x 1], error = None, rowsAffected = Some 2\<rparr>"
    using th1 [THEN conjunct2, THEN conjunct1] s by simp
  have c: "select demo_runtime ?st ''public'' ''t''
        \<lparr>o_where = Some [(''x'', JNum (Finite 3))], o_orderBy = None,
         o_limit = Some (Finite 0), o_offset = None\<rparr>
      = \<lparr>success = True, data = Some [row_x 3], error = None, rowsAffected = Some 1\<rparr>"
    using th [where wh = "Some [(''x'', JNum (Finite 3))]" and ob = None and off = None,
        THEN conjunct2, THEN conjunct2, THEN mp, OF g, THEN conjunct2, THEN conjunct1]
    by (simp add: demo_table_def kept_rows_def three_rows_def row_x_def obj_get_def Let_def)
  have d: "select demo_runtime ?st ''public'' ''t''
        \<lparr>o_where = None, o_orderBy = Some [\<lparr>k_column = ''x'', k_direction = ASC\<rparr>],
         o_limit = Some (Finite 0), o_offset = Some (Finite 1)\<rparr>
      = \<lparr>success = True, data = Some [row_x 2, row_x 3], error = None, rowsAffected = Some 2\<rparr>"
    using th [where wh = None and ob = "Some [\<lparr>k_column = ''x'', k_direction = ASC\<rparr>]"
        and off = "Some 1",
        THEN conjunct2, THEN conjunct2, THEN mp, OF g, THEN conjunct2, THEN conjunct1]
    by (simp add: demo_table_def kept_rows_def three_rows_def demo_runtime_def sort_example_asc
        nat_num_def Let_def)
  have e: "select demo_runtime ?st ''public'' ''t''
        \<lparr>o_where = None, o_orderBy = Some [\<lparr>k_column = ''x'', k_direction = DESC\<rparr>],
         o_limit = Some (Finite 1), o_offset = Some (Finite 0)\<rparr>
      = \<lparr>success = True, data = Some [row_x 3], error = None, rowsAffected = Some 1\<rparr>"
    using th [where wh = None and ob = "Some [\<lparr>k_column = ''x'', k_direction = DESC\<rparr>]"
        and lim = "Some 1",
        THEN conjunct2, THEN conjunct2, THEN mp, OF g, THEN conjunct2, THEN conjunct2]
    by (simp add: demo_table_def kept_rows_def three_rows_def demo_runtime_def sort_example_desc
        nat_num_def Let_def)
  show ?thesis
    using g a b c d e by simp
qed




subsection \<open>update\<close>

lemma fold_update_step:
  "fold (update_step wh dat) rows acc
     = (fst acc @ map (\<lambda>row. if matches wh row then obj_assign row dat else row) rows,
        snd acc + length (filter (matches wh) rows))"
  by (induction rows arbitrary: acc) (auto simp: update_step_def)

lemma put_table_same:
  assumes "getTable st schema tableName = Some t"
  shows "put_table st schema tableName t = st"
proof -
  obtain tabs where d: "database st schema = Some tabs" and t: "tabs tableName = Some t"
    using assms by (auto simp: getTable_def split: option.splits)
  have "tabs(tableName \<mapsto> t) = tabs" using t by (rule map_upd_triv)
  moreover have "(database st)(schema \<mapsto> tabs) = database st" using d by (rule map_upd_triv)
  ultimately show ?thesis by (simp add: put_table_def d)
qed

lemma getTable_put_table:
  "getTable (put_table st schema tableName t) schema tableName = Some t"
  by (simp add: getTable_def put_table_def)

lemma map_no_match:
  assumes "\<forall>row \<in> set rows. \<not> matches wh row"
  shows "map (\<lambda>row. if matches wh row then obj_assign row dat else row) rows = rows"
    and "filter (matches wh) rows = []"
  using assms by (induction rows) auto

lemma update_found:
  assumes "getTable st schema tableName = Some t"
  shows "update rt st schema tableName wh dat
     = (let rows' = map (\<lambda>row. if matches wh row then obj_assign row dat else row) (t_rows t);
            n = length (filter (matches wh) (t_rows t));
            t1 = t\<lparr>t_rows := rows'\<rparr>;
            st1 = put_table st schema tableName t1
        in (if n > 0
            then saveDatabase (put_table (snd (new_date rt st1)) schema tableName
                   (t1\<lparr>t_updatedAt := fst (new_date rt st1)\<rparr>))
            else st1,
            \<lparr>success = True, data = None, error = None, rowsAffected = Some n\<rparr>))"
  using assms by (simp add: update_def fold_update_step Let_def split: prod.split)

text \<open>
  C6. When no row of an existing table matches the filter, \<open>update\<close> returns success with
  \<open>rowsAffected = 0\<close> and the state it was given: the rows, the table's \<open>updatedAt\<close>, the
  clock and the list of written snapshots are all as before.
\<close>

theorem update_no_match_unchanged:
  assumes "getTable st schema tableName = Some t"
    and "\<forall>row \<in> set (t_rows t). \<not> matches wh row"
  shows "update rt st schema tableName wh dat
     = (st, \<lparr>success = True, data = None, error = None, rowsAffected = Some 0\<rparr>)"
proof -
  have f: "fold (update_step wh dat) (t_rows t) ([], 0) = (t_rows t, 0)"
    using map_no_match [OF assms(2)] by (simp add: fold_update_step)
  have "put_table st schema tableName (t\<lparr>t_rows := t_rows t\<rparr>) = st"
    using put_table_same [OF assms(1)] by simp
  then show ?thesis
    using assms(1) f by (simp add: update_def)
qed

theorem update_no_match_unchanged_witness:
  "getTable (demo_state (demo_table [] three_rows)) ''public'' ''t'' = Some (demo_table [] three_rows)
   \<and> list_all (\<lambda>row. \<not> matches [(''x'', JNum (Finite 7))] row) (t_rows (demo_table [] three_rows))
   \<and> update demo_runtime (demo_state (demo_table [] three_rows)) ''public'' ''t''
        [(''x'', JNum (Finite 7))] [(''y'', JBool True)]
      = (demo_state (demo_table [] three_rows),
         \<lparr>success = True, data = None, error = None, rowsAffected = Some 0\<rparr>)"
proof -
  have g: "getTable (demo_state (demo_table [] three_rows)) ''public'' ''t''
      = Some (demo_table [] three_rows)"
    by (rule getTable_demo)
  have n: "list_all (\<lambda>row. \<not> matches [(''x'', JNum (Finite 7))] row)
      (t_rows (demo_table [] three_rows))"
    by (simp add: demo_table_def three_rows_def row_x_def matches_def obj_get_def)
  then have n': "\<forall>row \<in> set (t_rows (demo_table [] three_rows)).
      \<not> matches [(''x'', JNum (Finite 7))] row"
    by (simp add: list_all_iff)
  show ?thesis
    using g n update_no_match_unchanged [OF g n', of demo_runtime "[(''y'', JBool True)]"]
    by simp
qed

subsection \<open>insert\<close>

lemma insert_column_writes:
  "\<exists>v st'. insert_column rt t dat col (row, st) = (obj_set row (c_name col) v, st')
      \<and> database st' = database st \<and> snapshots st' = snapshots st"
  by (auto simp: insert_column_def Let_def new_uuid_def new_date_def split: option.split)

lemma fold_insert_column_keys:
  "obj_keys (fst (fold (insert_column rt t dat) cols acc)) = obj_keys (fst acc) \<union> c_name ` set cols"
proof (induction cols arbitrary: acc)
  case Nil
  then show ?case by simp
next
  case (Cons col cols)
  obtain row st where acc: "acc = (row, st)" by (cases acc)
  obtain v st' where "insert_column rt t dat col (row, st) = (obj_set row (c_name col) v, st')"
    using insert_column_writes by blast
  then show ?case
    using Cons.IH [of "(obj_set row (c_name col) v, st')"]
    by (simp add: acc obj_keys_obj_set)
qed

lemma insert_row_found:
  assumes "getTable st schema tableName = Some t"
  shows "insert_row rt st schema tableName dat
     = (let acc = fold (insert_column rt t dat) (t_columns t) ([], st);
            st2 = snd (new_date rt (snd acc));
            t' = t\<lparr>t_rows := t_rows t @ [fst acc], t_updatedAt := fst (new_date rt (snd acc))\<rparr>
        in (saveDatabase (put_table st2 schema tableName t'),
            \<lparr>success = True, data = Some [fst acc], error = None, rowsAffected = Some 1\<rparr>))"
  using assms by (simp add: insert_row_def Let_def split: prod.split)

lemma getTable_saveDatabase: "getTable (saveDatabase st) = getTable st"
  by (simp add: getTable_def saveDatabase_def fun_eq_iff)

lemma insert_row_keys:
  assumes "getTable st schema tableName = Some t"
  shows "\<exists>row. data (snd (insert_row rt st schema tableName dat)) = Some [row]
     \<and> obj_keys row = c_name ` set (t_columns t)"
proof -
  have "obj_keys (fst (fold (insert_column rt t dat) (t_columns t) ([], st)))
      = c_name ` set (t_columns t)"
    by (simp add: fold_insert_column_keys) (simp add: obj_keys_def)
  then show ?thesis
    using assms by (simp add: insert_row_found Let_def)
qed

lemma fold_num_max_finite:
  "fold (\<lambda>x acc. num_max acc x) (map Finite ks) (Finite a) = Finite (fold max ks a)"
  by (induction ks arbitrary: a) (auto simp: max_def)

lemma math_max_finite:
  "math_max (map Finite (k # ks)) = Finite (Max (set (k # ks)))"
proof -
  have "math_max (map Finite (k # ks)) = Finite (fold max ks k)"
    by (simp add: math_max_def fold_num_max_finite)
  then show ?thesis by (simp only: Max.set_eq_fold)
qed

lemma max_id_empty: "t_rows t = [] \<Longrightarrow> max_id rt t n = Finite 0"
  by (simp add: max_id_def)

text \<open>Rounding: integers up to \<open>2^53\<close> in magnitude are exact, \<open>2^53 + 1\<close> is not.\<close>

lemma bit_length_le: "m < 2 ^ k \<Longrightarrow> bit_length m \<le> k"
proof (induction k arbitrary: m)
  case 0
  then show ?case by (simp add: bit_length.simps)
next
  case (Suc k)
  have "m div 2 < 2 ^ k" using Suc.prems by auto
  then have "bit_length (m div 2) \<le> k" by (rule Suc.IH)
  then show ?case by (subst bit_length.simps) simp
qed

lemma bit_length_power: "bit_length (2 ^ k) = Suc k"
proof (induction k)
  case 0
  show ?case by (simp add: bit_length.simps [of "Suc 0"] bit_length.simps [of 0])
next
  case (Suc k)
  show ?case by (subst bit_length.simps) (simp add: Suc)
qed

lemma round_double_small:
  assumes "\<bar>n\<bar> < 2 ^ 53"
  shows "round_double n = Finite n"
proof -
  have "nat \<bar>n\<bar> < 2 ^ 53" using assms by (simp add: nat_less_iff)
  then have "bit_length (nat \<bar>n\<bar>) \<le> 53" by (rule bit_length_le)
  then show ?thesis by (simp add: round_double_def Let_def)
qed

lemma round_double_power: "round_double (2 ^ 53) = Finite (2 ^ 53)"
proof -
  have m: "nat \<bar>2 ^ 53 :: int\<bar> = 2 ^ 53" by simp
  have e: "bit_length (2 ^ 53) = 54" by (simp only: bit_length_power; simp)
  show ?thesis
    unfolding round_double_def m Let_def e by simp
qed

lemma round_double_exact:
  assumes "- (2 ^ 53) < n" and "n \<le> 2 ^ 53"
  shows "round_double n = Finite n"
proof (cases "n = 2 ^ 53")
  case True
  then show ?thesis by (simp only: round_double_power)
next
  case False
  then have "\<bar>n\<bar> < 2 ^ 53" using assms by simp
  then show ?thesis by (rule round_double_small)
qed

lemma round_double_next: "round_double (2 ^ 53 + 1) = Finite (2 ^ 53)"
proof -
  have m: "nat \<bar>2 ^ 53 + 1 :: int\<bar> = 2 ^ 53 + 1" by simp
  have p: "(4503599627370496 :: nat) = 2 ^ 52" by simp
  have h: "bit_length 4503599627370496 = 53"
    by (simp only: p bit_length_power; simp)
  have e: "bit_length (2 ^ 53 + 1) = 54"
    by (subst bit_length.simps) (simp add: h)
  show ?thesis
    unfolding round_double_def m Let_def e by simp
qed

lemma or_zero_value:
  assumes "v = JUndefined \<or> v = JNull \<or> (\<exists>k. v = JNum (Finite k))"
  shows "to_number rt (or_zero v) = Finite (case v of JNum (Finite k) \<Rightarrow> k | _ \<Rightarrow> 0)"
  using assms by (auto simp: or_zero_def)

lemma max_id_values:
  assumes "t_rows t \<noteq> []"
    and "\<forall>r \<in> set (t_rows t). obj_get r n = JUndefined \<or> obj_get r n = JNull
           \<or> (\<exists>k. obj_get r n = JNum (Finite k))"
  shows "max_id rt t n = Finite (Max (int_at n ` set (t_rows t)))"
proof -
  have eq: "map (\<lambda>r. to_number rt (or_zero (obj_get r n))) (t_rows t)
      = map Finite (map (int_at n) (t_rows t))"
    using assms(2) by (simp add: int_at_def or_zero_value)
  obtain r rs where rows: "t_rows t = r # rs"
    using assms(1) by (cases "t_rows t") auto
  have "max_id rt t n = math_max (map Finite (map (int_at n) (t_rows t)))"
    using assms(1) by (simp only: max_id_def eq) simp
  also have "\<dots> = math_max (map Finite (int_at n r # map (int_at n) rs))"
    by (simp add: rows)
  also have "\<dots> = Finite (Max (set (int_at n r # map (int_at n) rs)))"
    by (rule math_max_finite)
  also have "set (int_at n r # map (int_at n) rs) = int_at n ` set (t_rows t)"
    by (simp add: rows)
  finally show ?thesis .
qed

lemma Max_int_at_bounds:
  assumes "rows \<noteq> []"
    and "\<forall>r \<in> set rows. obj_get r n = JUndefined \<or> obj_get r n = JNull
           \<or> (\<exists>k. obj_get r n = JNum (Finite k) \<and> \<bar>k\<bar> < 2 ^ 53)"
  shows "- (2 ^ 53) < Max (int_at n ` set rows) + 1 \<and> Max (int_at n ` set rows) + 1 \<le> 2 ^ 53"
proof -
  have b: "\<bar>int_at n r\<bar> < 2 ^ 53" if "r \<in> set rows" for r
    using assms(2) that by (auto simp: int_at_def)
  have ne: "int_at n ` set rows \<noteq> {}" and fin: "finite (int_at n ` set rows)"
    using assms(1) by simp_all
  have "Max (int_at n ` set rows) \<in> int_at n ` set rows"
    using fin ne by (rule Max_in)
  then obtain r where "r \<in> set rows" and "Max (int_at n ` set rows) = int_at n r"
    by auto
  then show ?thesis using b [of r] by (simp add: abs_less_iff)
qed

lemma insert_column_auto:
  assumes "obj_get dat (c_name col) = JUndefined"
    and "c_default col = None" and "c_autoIncrement col = Some True"
  shows "insert_column rt t dat col acc
     = (obj_set (fst acc) (c_name col) (JNum (num_plus (max_id rt t (c_name col)) (Finite 1))),
        snd acc)"
  using assms by (simp add: insert_column_def truthy_default_def Let_def)

lemma fold_insert_column_other:
  assumes "n \<notin> c_name ` set cols"
  shows "obj_get (fst (fold (insert_column rt t dat) cols acc)) n = obj_get (fst acc) n"
  using assms
proof (induction cols arbitrary: acc)
  case Nil
  then show ?case by simp
next
  case (Cons col cols)
  obtain row st where acc: "acc = (row, st)" by (cases acc)
  obtain v st' where w: "insert_column rt t dat col (row, st) = (obj_set row (c_name col) v, st')"
    using insert_column_writes by blast
  have "obj_get (fst (fold (insert_column rt t dat) cols (obj_set row (c_name col) v, st'))) n
      = obj_get (obj_set row (c_name col) v) n"
    using Cons.IH [of "(obj_set row (c_name col) v, st')"] Cons.prems by simp
  then show ?case using Cons.prems by (simp add: acc w obj_get_obj_set)
qed

lemma fold_insert_column_auto:
  assumes "col \<in> set cols" and "distinct (map c_name cols)"
    and "obj_get dat (c_name col) = JUndefined"
    and "c_default col = None" and "c_autoIncrement col = Some True"
  shows "obj_get (fst (fold (insert_column rt t dat) cols acc)) (c_name col)
     = JNum (num_plus (max_id rt t (c_name col)) (Finite 1))"
proof -
  obtain pre post where sp: "cols = pre @ col # post"
    using assms(1) by (meson split_list)
  have "c_name col \<notin> c_name ` set post"
    using assms(2) by (auto simp: sp)
  then show ?thesis
    by (simp add: sp fold_insert_column_other insert_column_auto [OF assms(3-5)] obj_get_obj_set)
qed

text \<open>
  C2 (amended). Let a table have distinct column names and an auto-increment column with
  no default, and let \<open>data\<close> give no value for it. Then \<open>insert\<close> appends a row that
  holds, in that column, 1 when the table had no rows; and when the table had rows, each
  of which holds there nothing, \<open>null\<close>, or an integer of magnitude below \<open>2^53\<close>, one more
  than the largest of the values, a row without an integer counting as 0.
\<close>

theorem insert_auto_increment:
  assumes "getTable st schema tableName = Some t"
    and "col \<in> set (t_columns t)" and "distinct (map c_name (t_columns t))"
    and "c_autoIncrement col = Some True" and "c_default col = None"
    and "obj_get dat (c_name col) = JUndefined"
  shows "\<exists>row t'. data (snd (insert_row rt st schema tableName dat)) = Some [row]
      \<and> getTable (fst (insert_row rt st schema tableName dat)) schema tableName = Some t'
      \<and> t_rows t' = t_rows t @ [row]
      \<and> (t_rows t = [] \<longrightarrow> obj_get row (c_name col) = JNum (Finite 1))
      \<and> (t_rows t \<noteq> []
           \<and> (\<forall>r \<in> set (t_rows t).
                 obj_get r (c_name col) = JUndefined \<or> obj_get r (c_name col) = JNull
                 \<or> (\<exists>k. obj_get r (c_name col) = JNum (Finite k) \<and> \<bar>k\<bar> < 2 ^ 53))
           \<longrightarrow> obj_get row (c_name col)
               = JNum (Finite (Max (int_at (c_name col) ` set (t_rows t)) + 1)))"
proof -
  define acc where "acc = fold (insert_column rt t dat) (t_columns t) ([], st)"
  define t' where "t' = t\<lparr>t_rows := t_rows t @ [fst acc], t_updatedAt := fst (new_date rt (snd acc))\<rparr>"
  let ?n = "c_name col"
  have v: "obj_get (fst acc) ?n = JNum (num_plus (max_id rt t ?n) (Finite 1))"
    unfolding acc_def by (rule fold_insert_column_auto [OF assms(2,3,6,5,4)])
  have "data (snd (insert_row rt st schema tableName dat)) = Some [fst acc]"
    by (simp add: insert_row_found [OF assms(1)] Let_def acc_def)
  moreover have "getTable (fst (insert_row rt st schema tableName dat)) schema tableName = Some t'"
    by (simp add: insert_row_found [OF assms(1)] Let_def acc_def t'_def getTable_saveDatabase
        getTable_put_table)
  moreover have "t_rows t' = t_rows t @ [fst acc]" by (simp add: t'_def)
  moreover have "t_rows t = [] \<longrightarrow> obj_get (fst acc) ?n = JNum (Finite 1)"
    by (simp add: v max_id_empty round_double_small)
  moreover have "t_rows t \<noteq> []
           \<and> (\<forall>r \<in> set (t_rows t).
                 obj_get r ?n = JUndefined \<or> obj_get r ?n = JNull
                 \<or> (\<exists>k. obj_get r ?n = JNum (Finite k) \<and> \<bar>k\<bar> < 2 ^ 53))
           \<longrightarrow> obj_get (fst acc) ?n = JNum (Finite (Max (int_at ?n ` set (t_rows t)) + 1))"
  proof
    assume h: "t_rows t \<noteq> []
           \<and> (\<forall>r \<in> set (t_rows t).
                 obj_get r ?n = JUndefined \<or> obj_get r ?n = JNull
                 \<or> (\<exists>k. obj_get r ?n = JNum (Finite k) \<and> \<bar>k\<bar> < 2 ^ 53))"
    then have w: "\<forall>r \<in> set (t_rows t). obj_get r ?n = JUndefined \<or> obj_get r ?n = JNull
           \<or> (\<exists>k. obj_get r ?n = JNum (Finite k))"
      by blast
    have m: "max_id rt t ?n = Finite (Max (int_at ?n ` set (t_rows t)))"
      using h w by (simp add: max_id_values)
    have b: "- (2 ^ 53) < Max (int_at ?n ` set (t_rows t)) + 1
        \<and> Max (int_at ?n ` set (t_rows t)) + 1 \<le> 2 ^ 53"
      using h by (intro Max_int_at_bounds) blast+
    have "round_double (Max (int_at ?n ` set (t_rows t)) + 1)
        = Finite (Max (int_at ?n ` set (t_rows t)) + 1)"
      using b by (intro round_double_exact) blast+
    then show "obj_get (fst acc) ?n = JNum (Finite (Max (int_at ?n ` set (t_rows t)) + 1))"
      by (simp add: v m)
  qed
  ultimately show ?thesis by blast
qed

theorem insert_auto_increment_witness:
  "getTable (demo_state (id_table [])) ''public'' ''t'' = Some (id_table [])
   \<and> getTable (demo_state (id_table [row_id (- 5), row_x 1, row_id 4])) ''public'' ''t''
      = Some (id_table [row_id (- 5), row_x 1, row_id 4])
   \<and> list_all (\<lambda>r. obj_get r ''id'' = JUndefined \<or> obj_get r ''id'' = JNull
                 \<or> (\<exists>k. obj_get r ''id'' = JNum (Finite k) \<and> \<bar>k\<bar> < 2 ^ 53))
        [row_id (- 5), row_x 1, row_id 4]
   \<and> id_column \<in> set (t_columns (id_table []))
   \<and> distinct (map c_name (t_columns (id_table [])))
   \<and> c_autoIncrement id_column = Some True \<and> c_default id_column = None
   \<and> obj_get [(''x'', JNum (Finite 5))] (c_name id_column) = JUndefined
   \<and> data (snd (insert_row demo_runtime (demo_state (id_table [])) ''public'' ''t''
        [(''x'', JNum (Finite 5))]))
      = Some [[(''id'', JNum (Finite 1)), (''x'', JNum (Finite 5))]]
   \<and> data (snd (insert_row demo_runtime
        (demo_state (id_table [row_id (- 5), row_x 1, row_id 4])) ''public'' ''t''
        [(''x'', JNum (Finite 5))]))
      = Some [[(''id'', JNum (Finite 5)), (''x'', JNum (Finite 5))]]"
proof -
  let ?dat = "[(''x'', JNum (Finite 5))]"
  let ?rows = "[row_id (- 5), row_x 1, row_id 4]"
  have g: "getTable (demo_state (id_table rows)) ''public'' ''t'' = Some (id_table rows)" for rows
    by (rule getTable_demo)
  have cols: "t_columns (id_table rows) = [id_column, plain_column ''x'' ''INTEGER'']"
    and rows: "t_rows (id_table rows) = rows" for rows
    by (simp_all add: id_table_def demo_table_def)
  have n: "c_name id_column = ''id''" "c_name (plain_column ''x'' ''INTEGER'') = ''x''"
    by (simp_all add: id_column_def plain_column_def)
  have h1: "id_column \<in> set (t_columns (id_table rows))"
    and h2: "distinct (map c_name (t_columns (id_table rows)))" for rows
    by (simp_all add: cols n)
  have h3: "c_autoIncrement id_column = Some True" and h4: "c_default id_column = None"
    by (simp_all add: id_column_def plain_column_def)
  have h5: "obj_get ?dat (c_name id_column) = JUndefined"
    by (simp add: n obj_get_def)
  have fin: "\<forall>r \<in> set ?rows. obj_get r ''id'' = JUndefined \<or> obj_get r ''id'' = JNull
                 \<or> (\<exists>k. obj_get r ''id'' = JNum (Finite k) \<and> \<bar>k\<bar> < 2 ^ 53)"
    by (simp add: row_id_def row_x_def obj_get_def)
  have x: "insert_column demo_runtime t ?dat (plain_column ''x'' ''INTEGER'') (row, st)
      = (obj_set row ''x'' (JNum (Finite 5)), st)" for t row st
    by (simp add: insert_column_def obj_get_def n)
  obtain row1 where d1: "data (snd (insert_row demo_runtime (demo_state (id_table [])) ''public'' ''t''
        ?dat)) = Some [row1]"
    and v1: "obj_get row1 ''id'' = JNum (Finite 1)"
    using insert_auto_increment [OF g h1 h2 h3 h4 h5, where rt = demo_runtime and rows1 = "[]"]
    by (auto simp: rows n)
  obtain row2 where d2: "data (snd (insert_row demo_runtime (demo_state (id_table ?rows))
        ''public'' ''t'' ?dat)) = Some [row2]"
    and v2: "obj_get row2 ''id'' = JNum (Finite (Max (int_at ''id'' ` set ?rows) + 1))"
    using insert_auto_increment [OF g h1 h2 h3 h4 h5, where rt = demo_runtime
        and rows1 = ?rows] fin
    by (auto simp: rows n)
  have m: "Max (int_at ''id'' ` set ?rows) + 1 = 5"
    by (simp add: int_at_def row_id_def row_x_def obj_get_def)
  have e1: "data (snd (insert_row demo_runtime (demo_state (id_table [])) ''public'' ''t'' ?dat))
      = Some [[(''id'', JNum (Finite 1)), (''x'', JNum (Finite 5))]]"
    by (simp add: insert_row_found [OF g] Let_def cols x insert_column_auto [OF h5 h4 h3] n
        max_id_empty rows obj_set_def round_double_small)
  have mx: "max_id demo_runtime (id_table ?rows) ''id'' = Finite 4"
    by (simp add: max_id_def rows math_max_def or_zero_def row_id_def row_x_def obj_get_def)
  have e2: "data (snd (insert_row demo_runtime (demo_state (id_table ?rows))
        ''public'' ''t'' ?dat))
      = Some [[(''id'', JNum (Finite 5)), (''x'', JNum (Finite 5))]]"
    by (simp add: insert_row_found [OF g] Let_def cols x insert_column_auto [OF h5 h4 h3] n
        mx obj_set_def round_double_small)
  have "obj_get row1 ''id'' = JNum (Finite 1) \<and> obj_get row2 ''id'' = JNum (Finite 5)"
    using v1 v2 m by simp
  moreover have "list_all (\<lambda>r. obj_get r ''id'' = JUndefined \<or> obj_get r ''id'' = JNull
                 \<or> (\<exists>k. obj_get r ''id'' = JNum (Finite k) \<and> \<bar>k\<bar> < 2 ^ 53)) ?rows"
    using fin by (simp only: list_all_iff)
  ultimately show ?thesis
    using g [of "[]"] g [of ?rows] h1 [of "[]"] h2 [of "[]"] h3 h4 h5 e1 e2
    by simp
qed

text \<open>
  C2 as stated fails in two ways. A row that holds no value in the column counts as 0:
  with the rows \<open>{id: -5}\<close> and \<open>{x: 1}\<close> the only existing value is \<open>-5\<close>, and the new row
  gets 1, not \<open>-4\<close>. And the sum is a sum of doubles: after \<open>{id: 2^53}\<close> the new row gets
  \<open>2^53\<close> again, not \<open>2^53 + 1\<close>.
\<close>

theorem insert_auto_increment_counterexample:
  "map (\<lambda>r. obj_get r ''id'') (t_rows (id_table [row_id (- 5), row_x 1]))
     = [JNum (Finite (- 5)), JUndefined]
   \<and> data (snd (insert_row demo_runtime (demo_state (id_table [row_id (- 5), row_x 1]))
        ''public'' ''t'' []))
     = Some [[(''id'', JNum (Finite 1)), (''x'', JNull)]]
   \<and> JNum (Finite 1) \<noteq> JNum (Finite (- 5 + 1))
   \<and> map (\<lambda>r. obj_get r ''id'') (t_rows (id_table [row_id 9007199254740992]))
     = [JNum (Finite 9007199254740992)]
   \<and> data (snd (insert_row demo_runtime (demo_state (id_table [row_id 9007199254740992]))
        ''public'' ''t'' []))
     = Some [[(''id'', JNum (Finite 9007199254740992)), (''x'', JNull)]]
   \<and> JNum (Finite 9007199254740992) \<noteq> JNum (Finite (9007199254740992 + 1))"
proof -
  have g: "getTable (demo_state (id_table rows)) ''public'' ''t'' = Some (id_table rows)" for rows
    by (rule getTable_demo)
  have cols: "t_columns (id_table rows) = [id_column, plain_column ''x'' ''INTEGER'']"
    and rows: "t_rows (id_table rows) = rows" for rows
    by (simp_all add: id_table_def demo_table_def)
  have n: "c_name id_column = ''id''" "c_name (plain_column ''x'' ''INTEGER'') = ''x''"
    by (simp_all add: id_column_def plain_column_def)
  have h3: "c_autoIncrement id_column = Some True" and h4: "c_default id_column = None"
    by (simp_all add: id_column_def plain_column_def)
  have h5: "obj_get [] (c_name id_column) = JUndefined"
    by (simp add: obj_get_def)
  have x: "insert_column demo_runtime t [] (plain_column ''x'' ''INTEGER'') (row, st)
      = (obj_set row ''x'' JNull, st)" for t row st
    by (simp add: insert_column_def obj_get_def n truthy_default_def plain_column_def)
  have m1: "max_id demo_runtime (id_table [row_id (- 5), row_x 1]) ''id'' = Finite 0"
    by (simp add: max_id_def rows math_max_def or_zero_def row_id_def row_x_def obj_get_def)
  have m2: "max_id demo_runtime (id_table [row_id 9007199254740992]) ''id''
      = Finite 9007199254740992"
    by (simp add: max_id_def rows math_max_def or_zero_def row_id_def obj_get_def)
  have r2: "round_double 9007199254740993 = Finite 9007199254740992"
    using round_double_next by simp
  have e1: "data (snd (insert_row demo_runtime (demo_state (id_table [row_id (- 5), row_x 1]))
        ''public'' ''t'' []))
     = Some [[(''id'', JNum (Finite 1)), (''x'', JNull)]]"
    by (simp add: insert_row_found [OF g] Let_def cols x insert_column_auto [OF h5 h4 h3] n
        m1 obj_set_def round_double_small)
  have e2: "data (snd (insert_row demo_runtime (demo_state (id_table [row_id 9007199254740992]))
        ''public'' ''t'' []))
     = Some [[(''id'', JNum (Finite 9007199254740992)), (''x'', JNull)]]"
    by (simp add: insert_row_found [OF g] Let_def cols x insert_column_auto [OF h5 h4 h3] n
        m2 obj_set_def r2)
  show ?thesis
    using e1 e2 by (simp add: rows row_id_def row_x_def obj_get_def)
qed

lemma strict_eq_undefined: "strict_eq v JUndefined \<longleftrightarrow> v = JUndefined"
  by (cases "(v, JUndefined)" rule: strict_eq.cases) auto

lemma strict_eq_string: "strict_eq v (JStr s) \<longleftrightarrow> v = JStr s"
  by (cases "(v, JStr s)" rule: strict_eq.cases) auto

lemma fold_insert_column_at:
  assumes "col \<in> set cols" and "distinct (map c_name cols)"
  shows "\<exists>row st'. obj_get (fst (fold (insert_column rt t dat) cols acc)) (c_name col)
      = obj_get (fst (insert_column rt t dat col (row, st'))) (c_name col)"
proof -
  obtain pre post where sp: "cols = pre @ col # post"
    using assms(1) by (meson split_list)
  have "c_name col \<notin> c_name ` set post"
    using assms(2) by (auto simp: sp)
  then have "obj_get (fst (fold (insert_column rt t dat) cols acc)) (c_name col)
      = obj_get (fst (insert_column rt t dat col (fold (insert_column rt t dat) pre acc))) (c_name col)"
    by (simp add: sp fold_insert_column_other)
  then show ?thesis
    by (metis prod.collapse)
qed

lemma insert_column_value:
  "obj_get (fst (insert_column rt t dat col (row, st))) (c_name col) =
     (if obj_get dat (c_name col) \<noteq> JUndefined then obj_get dat (c_name col)
      else case truthy_default col of
          Some d \<Rightarrow>
            if d = JStr ''gen_random_uuid()'' then JStr (randomUUID rt (uuids st))
            else if d = JStr ''now()'' then JStr (toISOString rt (clock st))
            else d
        | None \<Rightarrow>
            if c_autoIncrement col = Some True
            then JNum (num_plus (max_id rt t (c_name col)) (Finite 1))
            else JNull)"
  by (simp add: insert_column_def Let_def strict_eq_undefined strict_eq_string obj_get_obj_set
      new_uuid_def new_date_def split: option.split)

text \<open>
  What \<open>insert\<close> does hold to, for a table with distinct column names: an explicit value
  wins; otherwise a default that is truthy is used (a fresh identifier or a clock reading
  for the two sentinels, the literal otherwise); otherwise an auto-increment column gets
  one more than \<open>max_id\<close>; otherwise the value is \<open>null\<close>.
\<close>

lemma insert_row_resolution:
  assumes "getTable st schema tableName = Some t"
    and "col \<in> set (t_columns t)" and "distinct (map c_name (t_columns t))"
  shows "\<exists>row i j. data (snd (insert_row rt st schema tableName dat)) = Some [row]
      \<and> obj_keys row = c_name ` set (t_columns t)
      \<and> obj_get row (c_name col) =
         (if obj_get dat (c_name col) \<noteq> JUndefined then obj_get dat (c_name col)
          else case truthy_default col of
              Some d \<Rightarrow>
                if d = JStr ''gen_random_uuid()'' then JStr (randomUUID rt i)
                else if d = JStr ''now()'' then JStr (toISOString rt j)
                else d
            | None \<Rightarrow>
                if c_autoIncrement col = Some True
                then JNum (num_plus (max_id rt t (c_name col)) (Finite 1))
                else JNull)"
proof -
  define acc where "acc = fold (insert_column rt t dat) (t_columns t) ([], st)"
  obtain row0 st' where "obj_get (fst acc) (c_name col)
      = obj_get (fst (insert_column rt t dat col (row0, st'))) (c_name col)"
    unfolding acc_def using fold_insert_column_at [OF assms(2,3)] by blast
  then have v: "obj_get (fst acc) (c_name col) =
         (if obj_get dat (c_name col) \<noteq> JUndefined then obj_get dat (c_name col)
          else case truthy_default col of
              Some d \<Rightarrow>
                if d = JStr ''gen_random_uuid()'' then JStr (randomUUID rt (uuids st'))
                else if d = JStr ''now()'' then JStr (toISOString rt (clock st'))
                else d
            | None \<Rightarrow>
                if c_autoIncrement col = Some True
                then JNum (num_plus (max_id rt t (c_name col)) (Finite 1))
                else JNull)"
    by (simp only: insert_column_value)
  have k: "obj_keys (fst acc) = c_name ` set (t_columns t)"
    unfolding acc_def by (simp add: fold_insert_column_keys) (simp add: obj_keys_def)
  have "data (snd (insert_row rt st schema tableName dat)) = Some [fst acc]"
    by (simp add: insert_row_found [OF assms(1)] Let_def acc_def)
  then show ?thesis using v k by blast
qed

text \<open>
  C1 at a falsy default. A column declared with the default \<open>false\<close> gets \<open>null\<close>, not
  \<open>false\<close>, when \<open>data\<close> gives no value: the test \<open>if (col.default)\<close> takes the default for
  absent, and the column is not auto-increment.
\<close>

theorem insert_false_default_gives_null:
  "c_default active_column = Some (JBool False)
   \<and> c_autoIncrement active_column = None
   \<and> snd (insert_row demo_runtime (demo_state (demo_table [active_column] [])) ''public'' ''t'' [])
      = \<lparr>success = True, data = Some [[(''active'', JNull)]], error = None,
         rowsAffected = Some 1\<rparr>
   \<and> map_option t_rows
        (getTable (fst (insert_row demo_runtime (demo_state (demo_table [active_column] []))
           ''public'' ''t'' [])) ''public'' ''t'')
      = Some [[(''active'', JNull)]]"
  unfolding insert_row_found [OF getTable_demo]
  by (simp add: Let_def demo_table_def active_column_def plain_column_def insert_column_def
      truthy_default_def obj_get_def obj_set_def getTable_saveDatabase getTable_put_table)

subsection \<open>update merges every key, insert keeps the declared ones\<close>

text \<open>
  C10. In an existing table where at least one row matches, \<open>update\<close> writes every entry
  of \<open>data\<close> into each matching row: afterwards the row reads \<open>data\<close>'s value at every key
  of \<open>data\<close> and its old value elsewhere, and its keys are its old keys together with all
  keys of \<open>data\<close>, declared columns or not. Rows that do not match stay as they are, the
  columns are untouched, the table gets the next clock reading as \<open>updatedAt\<close> and a
  snapshot is written. A row built by \<open>insert\<close> has exactly the declared column names as
  keys.
\<close>

theorem update_merges_data:
  assumes "getTable st schema tableName = Some t"
    and "distinct (map fst dat)"
    and "\<exists>row \<in> set (t_rows t). matches wh row"
  shows "\<exists>t'. getTable (fst (update rt st schema tableName wh dat)) schema tableName = Some t'
      \<and> length (t_rows t') = length (t_rows t)
      \<and> (\<forall>i < length (t_rows t).
            if matches wh (t_rows t ! i)
            then (\<forall>k. obj_get (t_rows t' ! i) k
                      = (if k \<in> obj_keys dat then obj_get dat k else obj_get (t_rows t ! i) k))
                 \<and> obj_keys (t_rows t' ! i) = obj_keys (t_rows t ! i) \<union> obj_keys dat
            else t_rows t' ! i = t_rows t ! i)
      \<and> t_columns t' = t_columns t
      \<and> t_updatedAt t' = toISOString rt (clock st)
      \<and> snapshots (fst (update rt st schema tableName wh dat))
          = database (fst (update rt st schema tableName wh dat)) # snapshots st
      \<and> snd (update rt st schema tableName wh dat)
          = \<lparr>success = True, data = None, error = None,
             rowsAffected = Some (length (filter (matches wh) (t_rows t)))\<rparr>
      \<and> (\<exists>row. data (snd (insert_row rt st schema tableName dat)) = Some [row]
             \<and> obj_keys row = c_name ` set (t_columns t))"
proof -
  define rows' where "rows' = map (\<lambda>row. if matches wh row then obj_assign row dat else row) (t_rows t)"
  define t' where "t' = t\<lparr>t_rows := rows', t_updatedAt := toISOString rt (clock st)\<rparr>"
  have pos: "length (filter (matches wh) (t_rows t)) > 0"
    using assms(3) by (simp add: filter_empty_conv)
  have u: "fst (update rt st schema tableName wh dat)
      = saveDatabase (put_table (snd (new_date rt (put_table st schema tableName (t\<lparr>t_rows := rows'\<rparr>))))
           schema tableName t')"
    using pos by (simp add: update_found [OF assms(1)] Let_def rows'_def t'_def new_date_def put_table_def)
  have g: "getTable (fst (update rt st schema tableName wh dat)) schema tableName = Some t'"
    by (simp add: u getTable_saveDatabase getTable_put_table)
  have s: "snapshots (fst (update rt st schema tableName wh dat))
          = database (fst (update rt st schema tableName wh dat)) # snapshots st"
    by (simp add: u saveDatabase_def put_table_def new_date_def)
  have r: "\<forall>i < length (t_rows t).
            if matches wh (t_rows t ! i)
            then (\<forall>k. obj_get (t_rows t' ! i) k
                      = (if k \<in> obj_keys dat then obj_get dat k else obj_get (t_rows t ! i) k))
                 \<and> obj_keys (t_rows t' ! i) = obj_keys (t_rows t ! i) \<union> obj_keys dat
            else t_rows t' ! i = t_rows t ! i"
    by (simp add: t'_def rows'_def obj_get_obj_assign [OF assms(2)] obj_keys_obj_assign)
  have "length (t_rows t') = length (t_rows t)" "t_columns t' = t_columns t"
    "t_updatedAt t' = toISOString rt (clock st)"
    by (simp_all add: t'_def rows'_def)
  moreover have "snd (update rt st schema tableName wh dat)
          = \<lparr>success = True, data = None, error = None,
             rowsAffected = Some (length (filter (matches wh) (t_rows t)))\<rparr>"
    by (simp add: update_found [OF assms(1)] Let_def)
  ultimately show ?thesis
    using g s r insert_row_keys [OF assms(1)] by blast
qed

theorem update_merges_data_witness:
  "getTable (demo_state x_table) ''public'' ''t'' = Some x_table
   \<and> distinct (map fst [(''x'', JNum (Finite 10)), (''extra'', JBool True)])
   \<and> list_ex (matches [(''x'', JNum (Finite 1))]) (t_rows x_table)
   \<and> map_option t_rows (getTable (fst (update demo_runtime (demo_state x_table) ''public'' ''t''
          [(''x'', JNum (Finite 1))] [(''x'', JNum (Finite 10)), (''extra'', JBool True)]))
        ''public'' ''t'')
      = Some [row_x 3, [(''x'', JNum (Finite 10)), (''extra'', JBool True)], row_x 2]
   \<and> snd (update demo_runtime (demo_state x_table) ''public'' ''t''
          [(''x'', JNum (Finite 1))] [(''x'', JNum (Finite 10)), (''extra'', JBool True)])
      = \<lparr>success = True, data = None, error = None, rowsAffected = Some 1\<rparr>"
proof -
  let ?wh = "[(''x'', JNum (Finite 1))]"
  let ?dat = "[(''x'', JNum (Finite 10)), (''extra'', JBool True)]"
  have g: "getTable (demo_state x_table) ''public'' ''t'' = Some x_table"
    by (rule getTable_demo)
  have d: "distinct (map fst ?dat)" by simp
  have rows: "t_rows x_table = [row_x 3, row_x 1, row_x 2]"
    by (simp add: x_table_def demo_table_def three_rows_def)
  have m3: "\<not> matches ?wh (row_x 3)" and m1: "matches ?wh (row_x 1)" and m2: "\<not> matches ?wh (row_x 2)"
    by (simp_all add: matches_def row_x_def obj_get_def)
  have m: "\<exists>row \<in> set (t_rows x_table). matches ?wh row"
    using m1 by (simp add: rows)
  have a: "obj_assign (row_x 1) ?dat = ?dat"
    by (simp add: obj_assign_def obj_set_def row_x_def)
  obtain t' where t': "getTable (fst (update demo_runtime (demo_state x_table) ''public'' ''t'' ?wh ?dat))
        ''public'' ''t'' = Some t'"
    and len: "length (t_rows t') = length (t_rows x_table)"
    and res: "snd (update demo_runtime (demo_state x_table) ''public'' ''t'' ?wh ?dat)
          = \<lparr>success = True, data = None, error = None,
             rowsAffected = Some (length (filter (matches ?wh) (t_rows x_table)))\<rparr>"
    using update_merges_data [OF g d m, of demo_runtime] by blast
  have e: "map_option t_rows (getTable (fst (update demo_runtime (demo_state x_table) ''public'' ''t''
          ?wh ?dat)) ''public'' ''t'') = Some [row_x 3, ?dat, row_x 2]"
    by (simp add: update_found [OF g] Let_def rows m1 m2 m3 a getTable_saveDatabase
        getTable_put_table)
  have r: "snd (update demo_runtime (demo_state x_table) ''public'' ''t'' ?wh ?dat)
      = \<lparr>success = True, data = None, error = None, rowsAffected = Some 1\<rparr>"
    using res by (simp add: rows m1 m2 m3)
  have "list_ex (matches ?wh) (t_rows x_table)"
    using m by (simp add: list_ex_iff)
  then show ?thesis using g d e r by simp
qed

subsection \<open>addColumn\<close>

lemma addColumn_new:
  assumes "getTable st schema tableName = Some t"
    and "c_name col \<notin> c_name ` set (t_columns t)"
  shows "addColumn rt st schema tableName col
     = (saveDatabase (put_table (st\<lparr>clock := clock st + 1\<rparr>) schema tableName
          (t\<lparr>t_columns := t_columns t @ [col],
             t_rows := map (\<lambda>row. obj_set row (c_name col) (default_or_null col)) (t_rows t),
             t_updatedAt := toISOString rt (clock st)\<rparr>)), True)"
proof -
  have "\<forall>c \<in> set (t_columns t). c_name c \<noteq> c_name col"
    using assms(2) by (metis imageI)
  then have "find (\<lambda>c. c_name c = c_name col) (t_columns t) = None"
    by (simp add: find_None_iff)
  then show ?thesis
    using assms(1) by (simp add: addColumn_def new_date_def Let_def)
qed

text \<open>
  C5 at a falsy default. Adding a column whose default is the number 0 to a table with
  rows returns true and appends the column, but every existing row gets \<open>null\<close> for it,
  not 0: \<open>column.default || null\<close> yields \<open>null\<close> for every falsy default.
\<close>

theorem addColumn_zero_default_backfills_null:
  "c_default count_column = Some (JNum (Finite 0))
   \<and> snd (addColumn demo_runtime (demo_state x_table) ''public'' ''t'' count_column) = True
   \<and> map_option (\<lambda>t. (map c_name (t_columns t), t_rows t))
        (getTable (fst (addColumn demo_runtime (demo_state x_table) ''public'' ''t'' count_column))
           ''public'' ''t'')
      = Some ([''x'', ''count''],
              [[(''x'', JNum (Finite 3)), (''count'', JNull)],
               [(''x'', JNum (Finite 1)), (''count'', JNull)],
               [(''x'', JNum (Finite 2)), (''count'', JNull)]])"
proof -
  have g: "getTable (demo_state x_table) ''public'' ''t'' = Some x_table"
    by (rule getTable_demo)
  have n: "c_name count_column \<notin> c_name ` set (t_columns x_table)"
    by (simp add: count_column_def x_table_def demo_table_def plain_column_def)
  show ?thesis
    unfolding addColumn_new [OF g n]
    by (simp add: getTable_saveDatabase getTable_put_table count_column_def default_or_null_def
        x_table_def demo_table_def plain_column_def three_rows_def row_x_def obj_set_def)
qed

subsection \<open>executeSQL\<close>

lemmas char_class_defs = upper_char_def code_def is_line_terminator_def is_word_def is_space_def

lemmas pattern_defs = create_table_re_def select_re_def re_seq_def re_text_def

lemma keywords_exclusive: "startsWith s ''CREATE TABLE'' \<Longrightarrow> \<not> startsWith s ''SELECT''"
  by (cases s) auto

lemma executeSQL_returns: "snd (executeSQL rt st sql) \<noteq> None"
  by (simp add: executeSQL_def split: option.split prod.split)

lemma no_match_create_keyword: "string_match create_table_re ''CREATE TABLE'' = None"
  by (simp add: pattern_defs char_class_defs)

lemma no_match_select_one: "string_match select_re ''SELECT 1'' = None"
  by (simp add: pattern_defs char_class_defs)

lemma prefix_create_keyword: "startsWith (toUpperCase (trim ''CREATE TABLE'')) ''CREATE TABLE''"
  by (simp add: toUpperCase_def trim_def char_class_defs)

lemma prefix_select_one: "startsWith (toUpperCase (trim ''SELECT 1'')) ''SELECT''"
  by (simp add: toUpperCase_def trim_def char_class_defs)

text \<open>
  C8 (amended). When the trimmed, upper-cased text starts with \<open>CREATE TABLE\<close> or with
  \<open>SELECT\<close> and the pattern of that statement does not match, \<open>executeSQL\<close> returns the
  failure result with the error \<open>SQL parsing not fully implemented for this query\<close> and
  leaves the state as it was.
\<close>

theorem executeSQL_malformed:
  assumes "(startsWith (toUpperCase (trim sql)) ''CREATE TABLE''
              \<and> string_match create_table_re sql = None)
         \<or> (startsWith (toUpperCase (trim sql)) ''SELECT''
              \<and> string_match select_re sql = None)"
  shows "executeSQL rt st sql = (st, Some not_implemented)"
proof -
  have c: "create_match sql = None"
    using assms keywords_exclusive [of "toUpperCase (trim sql)"]
    by (auto simp: create_match_def)
  have s: "select_match sql = None"
    using assms keywords_exclusive [of "toUpperCase (trim sql)"]
    by (auto simp: select_match_def)
  show ?thesis
    by (simp add: executeSQL_def create_block_def select_block_def c s)
qed

theorem executeSQL_malformed_witness:
  "startsWith (toUpperCase (trim ''CREATE TABLE'')) ''CREATE TABLE''
   \<and> string_match create_table_re ''CREATE TABLE'' = None
   \<and> executeSQL demo_runtime empty_state ''CREATE TABLE'' = (empty_state, Some not_implemented)
   \<and> startsWith (toUpperCase (trim ''SELECT 1'')) ''SELECT''
   \<and> string_match select_re ''SELECT 1'' = None
   \<and> executeSQL demo_runtime empty_state ''SELECT 1'' = (empty_state, Some not_implemented)"
  using executeSQL_malformed [of "''CREATE TABLE''" demo_runtime empty_state]
    executeSQL_malformed [of "''SELECT 1''" demo_runtime empty_state]
    no_match_create_keyword no_match_select_one prefix_create_keyword prefix_select_one
  by simp

text \<open>
  C8 as stated fails: for the text \<open>CREATE TABLE\<close> the keyword is there, the pattern does
  not match, and a result value is produced all the same.
\<close>

theorem executeSQL_malformed_counterexample:
  "startsWith (toUpperCase (trim ''CREATE TABLE'')) ''CREATE TABLE''
   \<and> string_match create_table_re ''CREATE TABLE'' = None
   \<and> snd (executeSQL demo_runtime empty_state ''CREATE TABLE'') \<noteq> None
   \<and> snd (executeSQL demo_runtime empty_state ''CREATE TABLE'')
      = Some \<lparr>success = False, data = None,
               error = Some ''SQL parsing not fully implemented for this query'',
               rowsAffected = None\<rparr>"
proof -
  have "create_match ''CREATE TABLE'' = None"
    unfolding create_match_def no_match_create_keyword by simp
  moreover have "select_match ''CREATE TABLE'' = None"
    by (simp add: select_match_def toUpperCase_def trim_def char_class_defs)
  ultimately have "executeSQL demo_runtime empty_state ''CREATE TABLE''
      = (empty_state, Some not_implemented)"
    by (simp add: executeSQL_def create_block_def select_block_def)
  then show ?thesis
    using no_match_create_keyword prefix_create_keyword by (simp add: not_implemented_def)
qed

lemma create_match_foo:
  "create_match create_foo_sql
   = Some [1 \<mapsto> ''public'', 2 \<mapsto> ''foo'', 3 \<mapsto> ''id UUID PRIMARY KEY, name VARCHAR NOT NULL'']"
proof -
  have "startsWith (toUpperCase (trim create_foo_sql)) ''CREATE TABLE''"
    by (simp add: create_foo_sql_def toUpperCase_def trim_def char_class_defs)
  moreover have "string_match create_table_re create_foo_sql
     = Some [1 \<mapsto> ''public'', 2 \<mapsto> ''foo'', 3 \<mapsto> ''id UUID PRIMARY KEY, name VARCHAR NOT NULL'']"
    by (simp add: create_foo_sql_def pattern_defs char_class_defs)
  ultimately show ?thesis by (simp add: create_match_def)
qed

lemma parse_foo_columns:
  "map parse_column (split_char CHR '','' ''id UUID PRIMARY KEY, name VARCHAR NOT NULL'')
     = foo_columns"
  by (simp add: parse_column_def split_spaces_def trim_def char_class_defs foo_columns_def)

lemma createTable_fresh:
  assumes "getTable st schema (t_name t) = None"
  shows "getTable (fst (createTable st schema t)) schema (t_name t) = Some t"
  using assms
  by (auto simp: createTable_def getTable_def saveDatabase_def Let_def split: option.splits)

lemma create_block_foo:
  "create_block rt st create_foo_sql
     = Some (fst (createTable (st\<lparr>uuids := uuids st + 1, clock := clock st + 2\<rparr>) ''public''
               \<lparr>t_id = randomUUID rt (uuids st), t_name = ''foo'', t_schema = ''public'',
                t_columns = foo_columns, t_rows = [], t_indexes = [], t_policies = [],
                t_createdAt = toISOString rt (clock st),
                t_updatedAt = toISOString rt (clock st + 1)\<rparr>),
             \<lparr>success = True, data = Some [], error = None, rowsAffected = Some 0\<rparr>)"
  unfolding create_block_def create_match_foo
  by (simp add: group_text_def match_table_def match_schema_def group_given_def
      parse_foo_columns [simplified] new_uuid_def new_date_def Let_def case_prod_beta)

text \<open>
  C7. \<open>executeSQL\<close> on \<open>CREATE TABLE public.foo (id UUID PRIMARY KEY, name VARCHAR NOT
  NULL)\<close> returns success with no rows and \<open>rowsAffected = 0\<close>; when schema \<open>public\<close> has no
  table \<open>foo\<close> yet, it holds one afterwards, with exactly two columns: \<open>id\<close> of type UUID,
  primary and nullable (its definition text does not contain \<open>NOT NULL\<close>), and \<open>name\<close> of
  type VARCHAR, not nullable.
\<close>

theorem executeSQL_create_foo:
  "snd (executeSQL rt st create_foo_sql)
     = Some \<lparr>success = True, data = Some [], error = None, rowsAffected = Some 0\<rparr>
   \<and> (getTable st ''public'' ''foo'' = None \<longrightarrow>
        (\<exists>t. getTable (fst (executeSQL rt st create_foo_sql)) ''public'' ''foo'' = Some t
           \<and> t_name t = ''foo'' \<and> t_schema t = ''public'' \<and> t_rows t = []
           \<and> t_columns t =
               [\<lparr>c_name = ''id'', c_type = ''UUID'', c_nullable = True, c_default = None,
                 c_primary = Some True, c_unique = Some False, c_autoIncrement = None,
                 c_length = None\<rparr>,
                \<lparr>c_name = ''name'', c_type = ''VARCHAR'', c_nullable = False, c_default = None,
                 c_primary = Some False, c_unique = Some False, c_autoIncrement = None,
                 c_length = None\<rparr>]))"
proof (intro conjI impI)
  show "snd (executeSQL rt st create_foo_sql)
     = Some \<lparr>success = True, data = Some [], error = None, rowsAffected = Some 0\<rparr>"
    by (simp add: executeSQL_def create_block_foo)
next
  assume a: "getTable st ''public'' ''foo'' = None"
  define t where "t = \<lparr>t_id = randomUUID rt (uuids st), t_name = ''foo'', t_schema = ''public'',
                t_columns = foo_columns, t_rows = [], t_indexes = [], t_policies = [],
                t_createdAt = toISOString rt (clock st),
                t_updatedAt = toISOString rt (clock st + 1)\<rparr>"
  have n: "t_name t = ''foo''" by (simp add: t_def)
  have "getTable (st\<lparr>uuids := uuids st + 1, clock := clock st + 2\<rparr>) ''public'' (t_name t) = None"
    using a by (simp add: getTable_def n)
  then have "getTable (fst (createTable (st\<lparr>uuids := uuids st + 1, clock := clock st + 2\<rparr>)
       ''public'' t)) ''public'' (t_name t) = Some t"
    by (rule createTable_fresh)
  then have "getTable (fst (executeSQL rt st create_foo_sql)) ''public'' ''foo'' = Some t"
    by (simp add: executeSQL_def create_block_foo t_def)
  then show "\<exists>t. getTable (fst (executeSQL rt st create_foo_sql)) ''public'' ''foo'' = Some t
           \<and> t_name t = ''foo'' \<and> t_schema t = ''public'' \<and> t_rows t = []
           \<and> t_columns t =
               [\<lparr>c_name = ''id'', c_type = ''UUID'', c_nullable = True, c_default = None,
                 c_primary = Some True, c_unique = Some False, c_autoIncrement = None,
                 c_length = None\<rparr>,
                \<lparr>c_name = ''name'', c_type = ''VARCHAR'', c_nullable = False, c_default = None,
                 c_primary = Some False, c_unique = Some False, c_autoIncrement = None,
                 c_length = None\<rparr>]"
    by (simp add: t_def foo_columns_def)
qed

theorem executeSQL_create_foo_witness:
  "getTable empty_state ''public'' ''foo'' = None
   \<and> snd (executeSQL demo_runtime empty_state create_foo_sql)
      = Some \<lparr>success = True, data = Some [], error = None, rowsAffected = Some 0\<rparr>
   \<and> map_option (\<lambda>t. map (\<lambda>c. (c_name c, c_type c, c_primary c, c_nullable c)) (t_columns t))
        (getTable (fst (executeSQL demo_runtime empty_state create_foo_sql)) ''public'' ''foo'')
      = Some [(''id'', ''UUID'', Some True, True), (''name'', ''VARCHAR'', Some False, False)]"
proof -
  have g: "getTable empty_state ''public'' ''foo'' = None"
    by (simp add: getTable_def empty_state_def)
  note th = executeSQL_create_foo [of demo_runtime empty_state]
  obtain t where "getTable (fst (executeSQL demo_runtime empty_state create_foo_sql)) ''public'' ''foo''
      = Some t"
    and "t_columns t =
               [\<lparr>c_name = ''id'', c_type = ''UUID'', c_nullable = True, c_default = None,
                 c_primary = Some True, c_unique = Some False, c_autoIncrement = None,
                 c_length = None\<rparr>,
                \<lparr>c_name = ''name'', c_type = ''VARCHAR'', c_nullable = False, c_default = None,
                 c_primary = Some False, c_unique = Some False, c_autoIncrement = None,
                 c_length = None\<rparr>]"
    using th [THEN conjunct2, THEN mp, OF g] by blast
  then show ?thesis
    using g th [THEN conjunct1] by simp
qed

end
